theory Spec2Isabelle
  imports Main "HOL-Library.AList" "HOL-Library.Sublist"
begin

section \<open>The load generator of loadgen.py\<close>

text \<open>
  A shallow embedding of \<^verbatim>\<open>src/loadgen.py\<close>. Every method becomes a function that takes
  the object it is called on and the world, and returns both updated. The world holds what
  the methods touch outside their object: the observable trace (log records, thread starts
  and joins, file removals, metric updates), the set of live threads, the scratch files on
  disk, and the answers of the environment (which joins time out, which removals raise,
  how many processors there are).
\<close>

subsection \<open>Observable events and the world\<close>

datatype level = INFO | WARNING | ERROR

datatype event =
    Log level string
  | Thread_start nat
  | Thread_join nat
  | File_write string
  | File_read string
  | Os_remove string
  | LOAD_REQUESTS_TOTAL_inc string
  | ERROR_COUNT_inc string
  | LOAD_DURATION_observe string
  | RESOURCE_USAGE_set string string

record world =
  trace :: "event list"
  alive :: "nat set"
  next_tid :: nat
  join_times_out :: "nat set"
  files :: "string set"
  os_remove_raises :: "(string \<times> string) list"
  cpu_count :: nat

definition emit :: "event \<Rightarrow> world \<Rightarrow> world" where
  "emit e w = w\<lparr>trace := trace w @ [e]\<rparr>"

definition logger :: "level \<Rightarrow> string \<Rightarrow> world \<Rightarrow> world" where
  "logger l msg w = emit (Log l msg) w"

text \<open>The value of a labelled counter is the number of its increments so far.\<close>

definition requests_total :: "world \<Rightarrow> string \<Rightarrow> nat" where
  "requests_total w l = length (filter (\<lambda>e. e = LOAD_REQUESTS_TOTAL_inc l) (trace w))"

definition errors_total :: "world \<Rightarrow> string \<Rightarrow> nat" where
  "errors_total w l = length (filter (\<lambda>e. e = ERROR_COUNT_inc l) (trace w))"

text \<open>\<^verbatim>\<open>str\<close> of an integer, for the numbers that the log messages and file names hold.\<close>

definition digit :: "nat \<Rightarrow> char" where
  "digit n = ''0123456789'' ! n"

function str_nat :: "nat \<Rightarrow> string" where
  "str_nat n = (if n < 10 then [digit n] else str_nat (n div 10) @ [digit (n mod 10)])"
  by pat_completeness auto
termination
  by (relation "measure id") auto

definition str_int :: "int \<Rightarrow> string" where
  "str_int i = (if i < 0 then CHR ''-'' # str_nat (nat (- i)) else str_nat (nat i))"

text \<open>A loop over a list that threads the world through, as a Python \<^verbatim>\<open>for\<close> does.\<close>

fun map_st :: "('a \<Rightarrow> 's \<Rightarrow> 'a \<times> 's) \<Rightarrow> 'a list \<Rightarrow> 's \<Rightarrow> 'a list \<times> 's" where
  "map_st f [] s = ([], s)"
| "map_st f (x # xs) s =
     (case f x s of (x', s1) \<Rightarrow> (case map_st f xs s1 of (xs', s2) \<Rightarrow> (x' # xs', s2)))"

text \<open>The recursion of a method through the children of a mixed generator goes through
  \<open>map_st\<close>; the definitions below need to know that it calls its argument on the elements
  of the list only.\<close>

lemma map_st_cong [fundef_cong]:
  "xs = ys \<Longrightarrow> s = t \<Longrightarrow> (\<And>x u. x \<in> set ys \<Longrightarrow> f x u = g x u) \<Longrightarrow> map_st f xs s = map_st g ys t"
  by (induction ys arbitrary: xs s t) (auto split: prod.splits)

subsection \<open>Intensity profiles\<close>

record profile =
  cpu_percent :: int
  memory_mb :: int
  duration :: int

definition intensity_levels :: "(string \<times> profile) list" where
  "intensity_levels =
     [(''low'', \<lparr>cpu_percent = 20, memory_mb = 100, duration = 30\<rparr>),
      (''medium'', \<lparr>cpu_percent = 50, memory_mb = 250, duration = 60\<rparr>),
      (''high'', \<lparr>cpu_percent = 80, memory_mb = 500, duration = 120\<rparr>),
      (''custom'', \<lparr>cpu_percent = 70, memory_mb = 300, duration = 90\<rparr>)]"

text \<open>
  \<^verbatim>\<open>self.intensity_levels.get(intensity, self.intensity_levels["medium"])\<close>. The default is
  itself a lookup in the table; its key is one of the four of the literal, so it cannot fail.
\<close>

definition get_config :: "string \<Rightarrow> profile" where
  "get_config i =
     (case map_of intensity_levels i of
        Some p \<Rightarrow> p
      | None \<Rightarrow> the (map_of intensity_levels ''medium''))"

subsection \<open>Generators\<close>

text \<open>
  The fields of \<^verbatim>\<open>WorkloadGenerator\<close>; a thread handle is the number of the thread. The
  subclasses add their own fields: the retained buffers (each known by its size), the
  endpoints, the recorded scratch files, and the children of the mixed generator.
\<close>

record base =
  name :: string
  intensity :: string
  running :: bool
  threads :: "nat list"
  config :: profile

datatype workload =
    CPUWorkload base
  | MemoryWorkload base "int list"
  | NetworkWorkload base "string list"
  | StorageWorkload base "string list"
  | MixedWorkload base "workload list"

definition WorkloadGenerator_init :: "string \<Rightarrow> string \<Rightarrow> base" where
  "WorkloadGenerator_init n i =
     \<lparr>name = n, intensity = i, running = False, threads = [], config = get_config i\<rparr>"

definition endpoints_init :: "string list" where
  "endpoints_init =
     [''https://httpbin.org/get'', ''https://httpbin.org/post'',
      ''https://httpbin.org/status/200'', ''https://httpbin.org/delay/1'']"

definition CPUWorkload_init :: "string \<Rightarrow> workload" where
  "CPUWorkload_init i = CPUWorkload (WorkloadGenerator_init ''CPU'' i)"

definition MemoryWorkload_init :: "string \<Rightarrow> workload" where
  "MemoryWorkload_init i = MemoryWorkload (WorkloadGenerator_init ''Memory'' i) []"

definition NetworkWorkload_init :: "string \<Rightarrow> workload" where
  "NetworkWorkload_init i = NetworkWorkload (WorkloadGenerator_init ''Network'' i) endpoints_init"

definition StorageWorkload_init :: "string \<Rightarrow> workload" where
  "StorageWorkload_init i = StorageWorkload (WorkloadGenerator_init ''Storage'' i) []"

definition MixedWorkload_init :: "string \<Rightarrow> workload" where
  "MixedWorkload_init i =
     MixedWorkload (WorkloadGenerator_init ''Mixed'' i)
       [CPUWorkload_init i, MemoryWorkload_init i, NetworkWorkload_init i, StorageWorkload_init i]"

fun base_of :: "workload \<Rightarrow> base" where
  "base_of (CPUWorkload b) = b"
| "base_of (MemoryWorkload b cs) = b"
| "base_of (NetworkWorkload b es) = b"
| "base_of (StorageWorkload b fs) = b"
| "base_of (MixedWorkload b ws) = b"

fun memory_chunks :: "workload \<Rightarrow> int list" where
  "memory_chunks (MemoryWorkload b cs) = cs"
| "memory_chunks g = []"

fun temp_files :: "workload \<Rightarrow> string list" where
  "temp_files (StorageWorkload b fs) = fs"
| "temp_files g = []"

fun workloads_of :: "workload \<Rightarrow> workload list" where
  "workloads_of (MixedWorkload b ws) = ws"
| "workloads_of g = []"

subsubsection \<open>start\<close>

text \<open>\<^verbatim>\<open>WorkloadGenerator.start\<close>: set the flag and log.\<close>

definition base_start :: "base \<Rightarrow> world \<Rightarrow> base \<times> world" where
  "base_start b w =
     (b\<lparr>running := True\<rparr>,
      logger INFO (''Starting '' @ name b @ '' workload with '' @ intensity b @ '' intensity'') w)"

text \<open>
  One pass of the loops of the subclasses' \<^verbatim>\<open>start\<close>: create a thread, start it, append
  its handle to \<^verbatim>\<open>self.threads\<close>.
\<close>

fun spawn :: "nat \<Rightarrow> base \<Rightarrow> world \<Rightarrow> base \<times> world" where
  "spawn 0 b w = (b, w)"
| "spawn (Suc n) b w =
     (let t = next_tid w;
          w1 = emit (Thread_start t) (w\<lparr>alive := insert t (alive w), next_tid := Suc t\<rparr>)
      in spawn n (b\<lparr>threads := threads b @ [t]\<rparr>) w1)"

fun start :: "workload \<Rightarrow> world \<Rightarrow> workload \<times> world" where
  "start (CPUWorkload b) w =
     (case base_start b w of (b1, w1) \<Rightarrow>
        (case spawn (cpu_count w1) b1 w1 of (b2, w2) \<Rightarrow> (CPUWorkload b2, w2)))"
| "start (MemoryWorkload b cs) w =
     (case base_start b w of (b1, w1) \<Rightarrow>
        (case spawn 1 b1 w1 of (b2, w2) \<Rightarrow> (MemoryWorkload b2 cs, w2)))"
| "start (NetworkWorkload b es) w =
     (case base_start b w of (b1, w1) \<Rightarrow>
        (case spawn 3 b1 w1 of (b2, w2) \<Rightarrow> (NetworkWorkload b2 es, w2)))"
| "start (StorageWorkload b fs) w =
     (case base_start b w of (b1, w1) \<Rightarrow>
        (case spawn 1 b1 w1 of (b2, w2) \<Rightarrow> (StorageWorkload b2 fs, w2)))"
| "start (MixedWorkload b ws) w =
     (case base_start b w of (b1, w1) \<Rightarrow>
        (case map_st start ws w1 of (ws1, w2) \<Rightarrow> (MixedWorkload b1 ws1, w2)))"

subsubsection \<open>stop\<close>

text \<open>
  \<^verbatim>\<open>thread.join(timeout=5)\<close> on a live thread: the thread has ended when the call returns
  unless the environment lets the wait time out.
\<close>

definition join :: "nat \<Rightarrow> world \<Rightarrow> world" where
  "join t w =
     (let w1 = emit (Thread_join t) w
      in if t \<in> join_times_out w1 then w1 else w1\<lparr>alive := alive w1 - {t}\<rparr>)"

fun join_all :: "nat list \<Rightarrow> world \<Rightarrow> world" where
  "join_all [] w = w"
| "join_all (t # ts) w = join_all ts (if t \<in> alive w then join t w else w)"

text \<open>\<^verbatim>\<open>WorkloadGenerator.stop\<close>\<close>

definition base_stop :: "base \<Rightarrow> world \<Rightarrow> base \<times> world" where
  "base_stop b w =
     (b\<lparr>running := False\<rparr>,
      logger INFO (''Stopped '' @ name b @ '' workload'') (join_all (threads b) w))"

fun stop :: "workload \<Rightarrow> world \<Rightarrow> workload \<times> world" where
  "stop (CPUWorkload b) w = (case base_stop b w of (b1, w1) \<Rightarrow> (CPUWorkload b1, w1))"
| "stop (MemoryWorkload b cs) w = (case base_stop b w of (b1, w1) \<Rightarrow> (MemoryWorkload b1 cs, w1))"
| "stop (NetworkWorkload b es) w = (case base_stop b w of (b1, w1) \<Rightarrow> (NetworkWorkload b1 es, w1))"
| "stop (StorageWorkload b fs) w = (case base_stop b w of (b1, w1) \<Rightarrow> (StorageWorkload b1 fs, w1))"
| "stop (MixedWorkload b ws) w =
     (case base_stop b w of (b1, w1) \<Rightarrow>
        (case map_st stop ws w1 of (ws1, w2) \<Rightarrow> (MixedWorkload b1 ws1, w2)))"

subsubsection \<open>cleanup\<close>

text \<open>
  One pass of the loop of \<^verbatim>\<open>StorageWorkload.cleanup\<close>: remove the file if it exists; a
  removal that raises is logged as a warning and the loop goes on.
\<close>

definition remove_temp_file :: "string \<Rightarrow> world \<Rightarrow> world" where
  "remove_temp_file p w =
     (if p \<in> files w then
        (case map_of (os_remove_raises w) p of
           None \<Rightarrow> emit (Os_remove p) (w\<lparr>files := files w - {p}\<rparr>)
         | Some e \<Rightarrow> logger WARNING (''Could not remove temp file '' @ p @ '': '' @ e) w)
      else w)"

fun cleanup :: "workload \<Rightarrow> world \<Rightarrow> workload \<times> world" where
  "cleanup (CPUWorkload b) w = (CPUWorkload b, w)"
| "cleanup (MemoryWorkload b cs) w = (MemoryWorkload b [], w)"
| "cleanup (NetworkWorkload b es) w = (NetworkWorkload b es, w)"
| "cleanup (StorageWorkload b fs) w = (StorageWorkload b [], fold remove_temp_file fs w)"
| "cleanup (MixedWorkload b ws) w =
     (case map_st cleanup ws w of (ws1, w1) \<Rightarrow> (MixedWorkload b ws1, w1))"

subsection \<open>The stress loops\<close>

text \<open>
  Each thread runs \<^verbatim>\<open>while self.running: try: ... except Exception\<close>. One pass of the
  loop is a function of what the environment answers during the pass: whether a call
  raises, what the clock reads, what a request returns. A caught exception is logged and
  counted, and the pass ends.
\<close>

text \<open>\<^verbatim>\<open>CPUWorkload._cpu_stress\<close>: the arithmetic cannot fail; reading the processor load can.\<close>

definition cpu_stress :: "nat \<Rightarrow> string option \<Rightarrow> world \<Rightarrow> world" where
  "cpu_stress thread_id psutil_raises w =
     (let w1 = emit (LOAD_REQUESTS_TOTAL_inc ''cpu'') (emit (LOAD_DURATION_observe ''cpu'') w)
      in case psutil_raises of
           None \<Rightarrow> emit (RESOURCE_USAGE_set ''cpu_percent'' ''cpu'') w1
         | Some e \<Rightarrow>
             emit (ERROR_COUNT_inc ''cpu'')
               (logger ERROR (''CPU workload error in thread '' @ str_nat thread_id @ '': '' @ e) w1))"

text \<open>
  \<^verbatim>\<open>MemoryWorkload._memory_stress\<close>: the allocation of the buffer can raise; a buffer that was
  allocated is appended to \<^verbatim>\<open>self.memory_chunks\<close>.
\<close>

definition memory_stress :: "string option \<Rightarrow> base \<Rightarrow> int list \<Rightarrow> world \<Rightarrow> int list \<times> world" where
  "memory_stress bytearray_raises b cs w =
     (let chunk_size = memory_mb (config b) * 1024 * 1024
      in case bytearray_raises of
           None \<Rightarrow>
             (cs @ [chunk_size],
              emit (RESOURCE_USAGE_set ''memory_used_mb'' ''memory'')
                (emit (RESOURCE_USAGE_set ''memory_percent'' ''memory'')
                  (emit (LOAD_REQUESTS_TOTAL_inc ''memory'')
                    (emit (LOAD_DURATION_observe ''memory'') w))))
         | Some e \<Rightarrow>
             (cs, emit (ERROR_COUNT_inc ''memory'') (logger ERROR (''Memory workload error: '' @ e) w)))"

text \<open>
  \<^verbatim>\<open>NetworkWorkload._network_stress\<close>. For each endpoint in turn the environment says what
  the pass meets there: the flag \<^verbatim>\<open>self.running\<close> has been cleared (the loop breaks), the
  request returns a response with a status code, or the request raises. The counter is
  incremented when \<^verbatim>\<open>response.status_code == 200\<close>.
\<close>

datatype request = Stop_seen | Response int | Request_raises string

fun network_requests :: "(string \<Rightarrow> request) \<Rightarrow> string list \<Rightarrow> world \<Rightarrow> string option \<times> world" where
  "network_requests env [] w = (None, w)"
| "network_requests env (endpoint # es) w =
     (case env endpoint of
        Stop_seen \<Rightarrow> (None, w)
      | Request_raises e \<Rightarrow> (Some e, w)
      | Response status_code \<Rightarrow>
          network_requests env es
            (if status_code = 200 then emit (LOAD_REQUESTS_TOTAL_inc ''network'') w else w))"

definition network_stress :: "nat \<Rightarrow> (string \<Rightarrow> request) \<Rightarrow> string list \<Rightarrow> world \<Rightarrow> world" where
  "network_stress thread_id env endpoints w =
     (case network_requests env endpoints w of
        (None, w1) \<Rightarrow>
          emit (RESOURCE_USAGE_set ''network_bytes_recv'' ''network'')
            (emit (RESOURCE_USAGE_set ''network_bytes_sent'' ''network'')
              (emit (LOAD_DURATION_observe ''network'') w1))
      | (Some e, w1) \<Rightarrow>
          emit (ERROR_COUNT_inc ''network'')
            (logger ERROR (''Network workload error in thread '' @ str_nat thread_id @ '': '' @ e) w1))"

text \<open>
  \<^verbatim>\<open>StorageWorkload._storage_stress\<close>. The file name holds the clock reading. Opening the
  file can raise (no file then), and so can writing it (the file is there, its name is
  not recorded, since the append comes after the \<^verbatim>\<open>with\<close> block).
\<close>

datatype written = Written | Open_raises string | Write_raises string

definition filename :: "nat \<Rightarrow> string" where
  "filename now = ''/tmp/loadgen_storage_'' @ str_nat now @ ''.dat''"

definition read_temp_file :: "string \<Rightarrow> world \<Rightarrow> world" where
  "read_temp_file p w = (if p \<in> files w then emit (File_read p) w else w)"

definition storage_failed :: "string \<Rightarrow> world \<Rightarrow> world" where
  "storage_failed e w = emit (ERROR_COUNT_inc ''storage'') (logger ERROR (''Storage workload error: '' @ e) w)"

definition storage_stress :: "nat \<Rightarrow> written \<Rightarrow> string list \<Rightarrow> world \<Rightarrow> string list \<times> world" where
  "storage_stress now io fs w =
     (case io of
        Open_raises e \<Rightarrow> (fs, storage_failed e w)
      | Write_raises e \<Rightarrow> (fs, storage_failed e (w\<lparr>files := insert (filename now) (files w)\<rparr>))
      | Written \<Rightarrow>
          (let w1 = emit (File_write (filename now)) (w\<lparr>files := insert (filename now) (files w)\<rparr>);
               fs1 = fs @ [filename now];
               w2 = fold read_temp_file (drop (length fs1 - 5) fs1) w1
           in (fs1,
               emit (RESOURCE_USAGE_set ''disk_free_gb'' ''storage'')
                 (emit (RESOURCE_USAGE_set ''disk_percent'' ''storage'')
                   (emit (LOAD_REQUESTS_TOTAL_inc ''storage'')
                     (emit (LOAD_DURATION_observe ''storage'') w2))))))"

text \<open>Any number of passes of a loop, one for each answer of the environment.\<close>

fun memory_stress_loop :: "string option list \<Rightarrow> base \<Rightarrow> int list \<Rightarrow> world \<Rightarrow> int list \<times> world" where
  "memory_stress_loop [] b cs w = (cs, w)"
| "memory_stress_loop (a # as) b cs w =
     (case memory_stress a b cs w of (cs1, w1) \<Rightarrow> memory_stress_loop as b cs1 w1)"

fun storage_stress_loop :: "(nat \<times> written) list \<Rightarrow> string list \<Rightarrow> world \<Rightarrow> string list \<times> world" where
  "storage_stress_loop [] fs w = (fs, w)"
| "storage_stress_loop ((now, io) # as) fs w =
     (case storage_stress now io fs w of (fs1, w1) \<Rightarrow> storage_stress_loop as fs1 w1)"

subsection \<open>The manager\<close>

datatype exn =
    ValueError string
  | OSError string
  | OverflowError string
  | Exception string
  | KeyboardInterrupt
  | SystemExit int

text \<open>
  \<^verbatim>\<open>self.workloads\<close> is a Python dictionary: it keeps the order of insertion, and an
  assignment to a key that is present replaces the value in place.
\<close>

record manager =
  workloads :: "(string \<times> workload) list"
  manager_running :: bool
  signal_received :: bool

definition LoadGeneratorManager_init :: manager where
  "LoadGeneratorManager_init = \<lparr>workloads = [], manager_running = False, signal_received = False\<rparr>"

definition workload_map :: "(string \<times> (string \<Rightarrow> workload)) list" where
  "workload_map =
     [(''cpu'', CPUWorkload_init), (''memory'', MemoryWorkload_init),
      (''network'', NetworkWorkload_init), (''storage'', StorageWorkload_init),
      (''mixed'', MixedWorkload_init)]"

text \<open>A method raises or returns; the manager and the world are what they are at that point.\<close>

definition add_workload :: "string \<Rightarrow> string \<Rightarrow> manager \<Rightarrow> world \<Rightarrow> exn option \<times> manager \<times> world" where
  "add_workload workload_type i m w =
     (case map_of workload_map workload_type of
        None \<Rightarrow> (Some (ValueError (''Unknown workload type: '' @ workload_type)), m, w)
      | Some workload_class \<Rightarrow>
          (None,
           m\<lparr>workloads := AList.update workload_type (workload_class i) (workloads m)\<rparr>,
           logger INFO (''Added '' @ workload_type @ '' workload with '' @ i @ '' intensity'') w))"

text \<open>\<^verbatim>\<open>for workload in self.workloads.values(): workload.f()\<close>\<close>

definition on_value :: "(workload \<Rightarrow> world \<Rightarrow> workload \<times> world) \<Rightarrow> string \<times> workload \<Rightarrow> world \<Rightarrow> (string \<times> workload) \<times> world" where
  "on_value f kv w = (case f (snd kv) w of (g, w1) \<Rightarrow> ((fst kv, g), w1))"

definition start_all :: "manager \<Rightarrow> world \<Rightarrow> manager \<times> world" where
  "start_all m w =
     (if workloads m = [] then (m, logger WARNING ''No workloads configured'' w)
      else (case map_st (on_value start) (workloads m) w of
              (ws, w1) \<Rightarrow> (m\<lparr>workloads := ws, manager_running := True\<rparr>,
                           logger INFO ''All workloads started'' w1)))"

definition stop_all :: "manager \<Rightarrow> world \<Rightarrow> manager \<times> world" where
  "stop_all m w =
     (case map_st (on_value stop) (workloads m) w of
        (ws, w1) \<Rightarrow> (m\<lparr>workloads := ws, manager_running := False\<rparr>,
                     logger INFO ''All workloads stopped'' w1))"

definition cleanup_all :: "manager \<Rightarrow> world \<Rightarrow> manager \<times> world" where
  "cleanup_all m w =
     (case map_st (on_value cleanup) (workloads m) w of
        (ws, w1) \<Rightarrow> (m\<lparr>workloads := ws\<rparr>, logger INFO ''All workloads cleaned up'' w1))"

text \<open>\<^verbatim>\<open>_signal_handler\<close> ends in \<^verbatim>\<open>sys.exit(0)\<close>: it always raises \<^verbatim>\<open>SystemExit\<close>.\<close>

definition signal_handler :: "nat \<Rightarrow> manager \<Rightarrow> world \<Rightarrow> exn \<times> manager \<times> world" where
  "signal_handler signum m w =
     (case stop_all (m\<lparr>signal_received := True\<rparr>)
             (logger INFO (''Received signal '' @ str_nat signum @ '', shutting down...'') w) of
        (m1, w1) \<Rightarrow> (SystemExit 0, m1, w1))"

subsection \<open>Signals while the manager starts, stops and cleans up\<close>

text \<open>
  The constructor of the manager installs \<^verbatim>\<open>_signal_handler\<close> for \<^verbatim>\<open>SIGINT\<close> and
  \<^verbatim>\<open>SIGTERM\<close>, and nothing removes it: from then on a signal can be delivered at any
  moment. The handler runs in the main thread, in the middle of whatever the main thread
  is doing, and the \<^verbatim>\<open>SystemExit\<close> that it raises leaves that call unfinished.

  A signal on its way is the number of points of delivery that the main thread still
  passes before the signal arrives, and the number of the signal. The points of delivery
  are the entry of \<^verbatim>\<open>start_all\<close>, \<^verbatim>\<open>stop_all\<close> and \<^verbatim>\<open>cleanup_all\<close>, every
  \<^verbatim>\<open>thread.start\<close>, every \<^verbatim>\<open>thread.join\<close> (where the main thread waits for up to five
  seconds) and every \<^verbatim>\<open>os.remove\<close>, and the places between the statements of \<^verbatim>\<open>main\<close>
  named there. The functions below are \<open>start\<close>, \<open>stop\<close>, \<open>cleanup\<close>, \<open>start_all\<close>,
  \<open>stop_all\<close> and \<open>cleanup_all\<close> once more, for a call during which a signal may arrive:
  they return the number of the signal that was delivered, if one was, with the generator
  or the manager as the unfinished call has left it. The functions above describe a call
  during which no signal arrives.
\<close>

type_synonym sched = "(nat \<times> nat) option"

fun due :: "sched \<Rightarrow> nat option" where
  "due (Some (0, signum)) = Some signum"
| "due c = None"

fun passed :: "sched \<Rightarrow> sched" where
  "passed (Some (Suc n, signum)) = Some (n, signum)"
| "passed c = None"

fun map_st_sig ::
  "(sched \<Rightarrow> 'a \<Rightarrow> 's \<Rightarrow> nat option \<times> sched \<times> 'a \<times> 's) \<Rightarrow> sched \<Rightarrow> 'a list \<Rightarrow> 's \<Rightarrow>
     nat option \<times> sched \<times> 'a list \<times> 's" where
  "map_st_sig f c [] s = (None, c, [], s)"
| "map_st_sig f c (x # xs) s =
     (case f c x s of (r, c1, x1, s1) \<Rightarrow>
        (case r of
           Some signum \<Rightarrow> (Some signum, c1, x1 # xs, s1)
         | None \<Rightarrow> (case map_st_sig f c1 xs s1 of (r2, c2, xs1, s2) \<Rightarrow> (r2, c2, x1 # xs1, s2))))"

lemma map_st_sig_cong [fundef_cong]:
  "xs = ys \<Longrightarrow> c = d \<Longrightarrow> s = t \<Longrightarrow> (\<And>x e u. x \<in> set ys \<Longrightarrow> f e x u = g e x u) \<Longrightarrow>
   map_st_sig f c xs s = map_st_sig g d ys t"
  by (induction ys arbitrary: xs c d s t) (auto split: prod.splits option.splits)

text \<open>
  The loops of the subclasses' \<^verbatim>\<open>start\<close>: a signal that arrives when the next thread is
  about to be started leaves the remaining threads unstarted.
\<close>

fun spawn_sig :: "sched \<Rightarrow> nat \<Rightarrow> base \<Rightarrow> world \<Rightarrow> nat option \<times> sched \<times> base \<times> world" where
  "spawn_sig c 0 b w = (None, c, b, w)"
| "spawn_sig c (Suc n) b w =
     (case due c of
        Some signum \<Rightarrow> (Some signum, None, b, w)
      | None \<Rightarrow>
          (let t = next_tid w;
               w1 = emit (Thread_start t) (w\<lparr>alive := insert t (alive w), next_tid := Suc t\<rparr>)
           in spawn_sig (passed c) n (b\<lparr>threads := threads b @ [t]\<rparr>) w1))"

fun start_sig :: "sched \<Rightarrow> workload \<Rightarrow> world \<Rightarrow> nat option \<times> sched \<times> workload \<times> world" where
  "start_sig c (CPUWorkload b) w =
     (case base_start b w of (b1, w1) \<Rightarrow>
        (case spawn_sig c (cpu_count w1) b1 w1 of (r, c1, b2, w2) \<Rightarrow> (r, c1, CPUWorkload b2, w2)))"
| "start_sig c (MemoryWorkload b cs) w =
     (case base_start b w of (b1, w1) \<Rightarrow>
        (case spawn_sig c 1 b1 w1 of (r, c1, b2, w2) \<Rightarrow> (r, c1, MemoryWorkload b2 cs, w2)))"
| "start_sig c (NetworkWorkload b es) w =
     (case base_start b w of (b1, w1) \<Rightarrow>
        (case spawn_sig c 3 b1 w1 of (r, c1, b2, w2) \<Rightarrow> (r, c1, NetworkWorkload b2 es, w2)))"
| "start_sig c (StorageWorkload b fs) w =
     (case base_start b w of (b1, w1) \<Rightarrow>
        (case spawn_sig c 1 b1 w1 of (r, c1, b2, w2) \<Rightarrow> (r, c1, StorageWorkload b2 fs, w2)))"
| "start_sig c (MixedWorkload b ws) w =
     (case base_start b w of (b1, w1) \<Rightarrow>
        (case map_st_sig start_sig c ws w1 of (r, c1, ws1, w2) \<Rightarrow>
           (r, c1, MixedWorkload b1 ws1, w2)))"

text \<open>
  The loop of \<^verbatim>\<open>WorkloadGenerator.stop\<close>: a signal that arrives during a join leaves the
  join, and the loop, unfinished.
\<close>

fun join_all_sig :: "sched \<Rightarrow> nat list \<Rightarrow> world \<Rightarrow> nat option \<times> sched \<times> world" where
  "join_all_sig c [] w = (None, c, w)"
| "join_all_sig c (t # ts) w =
     (if t \<in> alive w then
        (case due c of
           Some signum \<Rightarrow> (Some signum, None, emit (Thread_join t) w)
         | None \<Rightarrow> join_all_sig (passed c) ts (join t w))
      else join_all_sig c ts w)"

definition base_stop_sig :: "sched \<Rightarrow> base \<Rightarrow> world \<Rightarrow> nat option \<times> sched \<times> base \<times> world" where
  "base_stop_sig c b w =
     (case join_all_sig c (threads b) w of (r, c1, w1) \<Rightarrow>
        (case r of
           Some signum \<Rightarrow> (Some signum, c1, b\<lparr>running := False\<rparr>, w1)
         | None \<Rightarrow>
             (None, c1, b\<lparr>running := False\<rparr>,
              logger INFO (''Stopped '' @ name b @ '' workload'') w1)))"

fun stop_sig :: "sched \<Rightarrow> workload \<Rightarrow> world \<Rightarrow> nat option \<times> sched \<times> workload \<times> world" where
  "stop_sig c (CPUWorkload b) w =
     (case base_stop_sig c b w of (r, c1, b1, w1) \<Rightarrow> (r, c1, CPUWorkload b1, w1))"
| "stop_sig c (MemoryWorkload b cs) w =
     (case base_stop_sig c b w of (r, c1, b1, w1) \<Rightarrow> (r, c1, MemoryWorkload b1 cs, w1))"
| "stop_sig c (NetworkWorkload b es) w =
     (case base_stop_sig c b w of (r, c1, b1, w1) \<Rightarrow> (r, c1, NetworkWorkload b1 es, w1))"
| "stop_sig c (StorageWorkload b fs) w =
     (case base_stop_sig c b w of (r, c1, b1, w1) \<Rightarrow> (r, c1, StorageWorkload b1 fs, w1))"
| "stop_sig c (MixedWorkload b ws) w =
     (case base_stop_sig c b w of (r, c1, b1, w1) \<Rightarrow>
        (case r of
           Some signum \<Rightarrow> (Some signum, c1, MixedWorkload b1 ws, w1)
         | None \<Rightarrow>
             (case map_st_sig stop_sig c1 ws w1 of (r2, c2, ws1, w2) \<Rightarrow>
                (r2, c2, MixedWorkload b1 ws1, w2))))"

text \<open>
  The loop of \<^verbatim>\<open>StorageWorkload.cleanup\<close>: \<^verbatim>\<open>SystemExit\<close> is not an \<^verbatim>\<open>Exception\<close>, so the
  \<^verbatim>\<open>except\<close> clause of the loop lets it through, and \<^verbatim>\<open>self.temp_files.clear()\<close> is not
  reached.
\<close>

fun remove_temp_files_sig :: "sched \<Rightarrow> string list \<Rightarrow> world \<Rightarrow> nat option \<times> sched \<times> world" where
  "remove_temp_files_sig c [] w = (None, c, w)"
| "remove_temp_files_sig c (p # ps) w =
     (if p \<in> files w then
        (case due c of
           Some signum \<Rightarrow> (Some signum, None, w)
         | None \<Rightarrow> remove_temp_files_sig (passed c) ps (remove_temp_file p w))
      else remove_temp_files_sig c ps w)"

fun cleanup_sig :: "sched \<Rightarrow> workload \<Rightarrow> world \<Rightarrow> nat option \<times> sched \<times> workload \<times> world" where
  "cleanup_sig c (CPUWorkload b) w = (None, c, CPUWorkload b, w)"
| "cleanup_sig c (MemoryWorkload b cs) w = (None, c, MemoryWorkload b [], w)"
| "cleanup_sig c (NetworkWorkload b es) w = (None, c, NetworkWorkload b es, w)"
| "cleanup_sig c (StorageWorkload b fs) w =
     (case remove_temp_files_sig c fs w of (r, c1, w1) \<Rightarrow>
        (case r of
           Some signum \<Rightarrow> (Some signum, c1, StorageWorkload b fs, w1)
         | None \<Rightarrow> (None, c1, StorageWorkload b [], w1)))"
| "cleanup_sig c (MixedWorkload b ws) w =
     (case map_st_sig cleanup_sig c ws w of (r, c1, ws1, w1) \<Rightarrow> (r, c1, MixedWorkload b ws1, w1))"

definition on_value_sig ::
  "(sched \<Rightarrow> workload \<Rightarrow> world \<Rightarrow> nat option \<times> sched \<times> workload \<times> world) \<Rightarrow>
     sched \<Rightarrow> string \<times> workload \<Rightarrow> world \<Rightarrow> nat option \<times> sched \<times> (string \<times> workload) \<times> world" where
  "on_value_sig f c kv w = (case f c (snd kv) w of (r, c1, g, w1) \<Rightarrow> (r, c1, (fst kv, g), w1))"

text \<open>
  \<^verbatim>\<open>start_all\<close>, \<^verbatim>\<open>stop_all\<close> and \<^verbatim>\<open>cleanup_all\<close> during which a signal may arrive.
  The handler runs on the manager as it is at that moment; its \<^verbatim>\<open>SystemExit\<close> ends the
  call, before the log record of the call.
\<close>

definition start_all_sig :: "sched \<Rightarrow> manager \<Rightarrow> world \<Rightarrow> exn option \<times> sched \<times> manager \<times> world" where
  "start_all_sig c m w =
     (case due c of
        Some signum \<Rightarrow> (case signal_handler signum m w of (e, m1, w1) \<Rightarrow> (Some e, None, m1, w1))
      | None \<Rightarrow>
          (if workloads m = [] then (None, passed c, m, logger WARNING ''No workloads configured'' w)
           else
             (case map_st_sig (on_value_sig start_sig) (passed c) (workloads m) w of
                (r, c1, ws, w1) \<Rightarrow>
                  (case r of
                     Some signum \<Rightarrow>
                       (case signal_handler signum (m\<lparr>workloads := ws, manager_running := True\<rparr>) w1 of
                          (e, m1, w2) \<Rightarrow> (Some e, None, m1, w2))
                   | None \<Rightarrow>
                       (None, c1, m\<lparr>workloads := ws, manager_running := True\<rparr>,
                        logger INFO ''All workloads started'' w1)))))"


definition stop_all_sig :: "sched \<Rightarrow> manager \<Rightarrow> world \<Rightarrow> exn option \<times> sched \<times> manager \<times> world" where
  "stop_all_sig c m w =
     (case due c of
        Some signum \<Rightarrow> (case signal_handler signum m w of (e, m1, w1) \<Rightarrow> (Some e, None, m1, w1))
      | None \<Rightarrow>
          (case map_st_sig (on_value_sig stop_sig) (passed c) (workloads m) w of (r, c1, ws, w1) \<Rightarrow>
             (case r of
                Some signum \<Rightarrow>
                  (case signal_handler signum (m\<lparr>workloads := ws, manager_running := False\<rparr>) w1 of
                     (e, m1, w2) \<Rightarrow> (Some e, None, m1, w2))
              | None \<Rightarrow>
                  (None, c1, m\<lparr>workloads := ws, manager_running := False\<rparr>,
                   logger INFO ''All workloads stopped'' w1))))"

definition cleanup_all_sig :: "sched \<Rightarrow> manager \<Rightarrow> world \<Rightarrow> exn option \<times> sched \<times> manager \<times> world" where
  "cleanup_all_sig c m w =
     (case due c of
        Some signum \<Rightarrow> (case signal_handler signum m w of (e, m1, w1) \<Rightarrow> (Some e, None, m1, w1))
      | None \<Rightarrow>
          (case map_st_sig (on_value_sig cleanup_sig) (passed c) (workloads m) w of (r, c1, ws, w1) \<Rightarrow>
             (case r of
                Some signum \<Rightarrow>
                  (case signal_handler signum (m\<lparr>workloads := ws\<rparr>) w1 of
                     (e, m1, w2) \<Rightarrow> (Some e, None, m1, w2))
              | None \<Rightarrow> (None, c1, m\<lparr>workloads := ws\<rparr>, logger INFO ''All workloads cleaned up'' w1))))"

subsection \<open>The run loop\<close>

text \<open>
  What happens while the run loop sleeps for a second: nothing, or a signal is delivered
  (the handler runs in the main thread, inside the \<^verbatim>\<open>try\<close> block), or a
  \<^verbatim>\<open>KeyboardInterrupt\<close> or another exception is raised. The clock is counted in whole
  seconds, one for each sleep; when the list of answers is used up, nothing happens any more.
  The first signal ends the loop, since its handler raises.
\<close>

datatype tick = Slept | Signal nat | Interrupt | Fault string

definition progress :: "int \<Rightarrow> world \<Rightarrow> world" where
  "progress elapsed w =
     (if elapsed mod 30 = 0
      then logger INFO (''Load generation running for '' @ str_int elapsed @ ''s'') w
      else w)"

function poll :: "int \<Rightarrow> int \<Rightarrow> tick list \<Rightarrow> manager \<Rightarrow> world \<Rightarrow> exn option \<times> manager \<times> world" where
  "poll elapsed dur ticks m w =
     (if elapsed < dur \<and> \<not> signal_received m then
        (case ticks of
           [] \<Rightarrow> poll (elapsed + 1) dur [] m (progress (elapsed + 1) w)
         | Slept # ts \<Rightarrow> poll (elapsed + 1) dur ts m (progress (elapsed + 1) w)
         | Signal signum # ts \<Rightarrow>
             (case signal_handler signum m w of (e, m1, w1) \<Rightarrow> (Some e, m1, w1))
         | Interrupt # ts \<Rightarrow> (Some KeyboardInterrupt, m, w)
         | Fault e # ts \<Rightarrow> (Some (Exception e), m, w))
      else (None, m, w))"
  by pat_completeness auto
termination
  by (relation "measure (\<lambda>(elapsed, dur, ticks, m, w). nat (dur - elapsed))") auto

text \<open>
  The \<^verbatim>\<open>except\<close> clauses of \<^verbatim>\<open>main\<close>: \<^verbatim>\<open>KeyboardInterrupt\<close> and every \<^verbatim>\<open>Exception\<close>
  (\<^verbatim>\<open>ValueError\<close>, \<^verbatim>\<open>OSError\<close> and \<^verbatim>\<open>OverflowError\<close> are some) are handled;
  \<^verbatim>\<open>SystemExit\<close> is not and stays pending.
\<close>

fun except_clauses :: "string \<Rightarrow> exn option \<Rightarrow> world \<Rightarrow> exn option \<times> world" where
  "except_clauses workload_type None w = (None, logger INFO ''Load generation completed'' w)"
| "except_clauses workload_type (Some KeyboardInterrupt) w = (None, logger INFO ''Interrupted by user'' w)"
| "except_clauses workload_type (Some (Exception e)) w =
     (None, emit (ERROR_COUNT_inc workload_type) (logger ERROR (''Unexpected error: '' @ e) w))"
| "except_clauses workload_type (Some (ValueError e)) w =
     (None, emit (ERROR_COUNT_inc workload_type) (logger ERROR (''Unexpected error: '' @ e) w))"
| "except_clauses workload_type (Some (OSError e)) w =
     (None, emit (ERROR_COUNT_inc workload_type) (logger ERROR (''Unexpected error: '' @ e) w))"
| "except_clauses workload_type (Some (OverflowError e)) w =
     (None, emit (ERROR_COUNT_inc workload_type) (logger ERROR (''Unexpected error: '' @ e) w))"
| "except_clauses workload_type (Some (SystemExit c)) w = (Some (SystemExit c), w)"

text \<open>
  \<^verbatim>\<open>start_http_server\<close> belongs to the Prometheus client, outside the repository. It
  raises when the port is not one that a socket can be bound to (\<^verbatim>\<open>OverflowError\<close>
  outside 0 to 65535) and when the environment refuses the port (\<^verbatim>\<open>OSError\<close>, the
  address is in use). \<^verbatim>\<open>main\<close> calls it before the manager exists and outside the
  \<^verbatim>\<open>try\<close> block.
\<close>

definition start_http_server :: "int \<Rightarrow> string option \<Rightarrow> exn option" where
  "start_http_server port refused =
     (if port < 0 \<or> 65535 < port then Some (OverflowError ''bind(): port must be 0-65535.'')
      else (case refused of Some e \<Rightarrow> Some (OSError e) | None \<Rightarrow> None))"

text \<open>
  What the environment does during a run of \<^verbatim>\<open>main\<close>: whether it refuses the port of the
  metrics server; a signal on its way when the manager has been constructed; what happens
  in each second of the polling loop; and a signal on its way when the polling loop has
  ended. The points of delivery before the loop are, in this order: before
  \<^verbatim>\<open>add_workload\<close> (outside the \<^verbatim>\<open>try\<close> block), those of \<^verbatim>\<open>start_all\<close>, and after
  \<^verbatim>\<open>start_all\<close>. Those after the loop are: at the log record that ends the \<^verbatim>\<open>try\<close>
  block or in the \<^verbatim>\<open>except\<close> clause that handles what the loop raised, those of
  \<^verbatim>\<open>stop_all\<close> and of \<^verbatim>\<open>cleanup_all\<close>, before the last log record, and after it.
\<close>

record env =
  http_refused :: "string option"
  before_loop :: sched
  in_loop :: "tick list"
  after_loop :: sched

text \<open>The handler as it ends a call of \<^verbatim>\<open>main\<close>.\<close>

definition handled :: "nat \<Rightarrow> manager \<Rightarrow> world \<Rightarrow> exn option \<times> sched \<times> manager \<times> world" where
  "handled signum m w = (case signal_handler signum m w of (e, m1, w1) \<Rightarrow> (Some e, None, m1, w1))"

text \<open>The body of the \<^verbatim>\<open>try\<close> block: \<^verbatim>\<open>start_all\<close> and the polling loop.\<close>

definition try_block :: "int \<Rightarrow> sched \<Rightarrow> tick list \<Rightarrow> manager \<Rightarrow> world \<Rightarrow> exn option \<times> manager \<times> world" where
  "try_block dur c ts m w =
     (case start_all_sig c m w of (r, c1, m1, w1) \<Rightarrow>
        (case r of
           Some e \<Rightarrow> (Some e, m1, w1)
         | None \<Rightarrow>
             (case due c1 of
                Some signum \<Rightarrow> (case signal_handler signum m1 w1 of (e, m2, w2) \<Rightarrow> (Some e, m2, w2))
              | None \<Rightarrow> poll 0 dur ts m1 w1)))"

text \<open>
  The end of the \<^verbatim>\<open>try\<close> block and the \<^verbatim>\<open>except\<close> clauses. A \<^verbatim>\<open>SystemExit\<close> goes on to
  the \<^verbatim>\<open>finally\<close> block at once. Otherwise a log record is written, in the \<^verbatim>\<open>try\<close>
  block or in an \<^verbatim>\<open>except\<close> clause; the handler of a signal that arrives there raises
  \<^verbatim>\<open>SystemExit\<close>, which stays pending.
\<close>

fun after_try :: "string \<Rightarrow> sched \<Rightarrow> exn option \<Rightarrow> manager \<Rightarrow> world \<Rightarrow> exn option \<times> sched \<times> manager \<times> world" where
  "after_try workload_type c (Some (SystemExit code)) m w = (Some (SystemExit code), c, m, w)"
| "after_try workload_type c raised m w =
     (case due c of
        Some signum \<Rightarrow> handled signum m w
      | None \<Rightarrow>
          (case except_clauses workload_type raised w of (pending, w1) \<Rightarrow> (pending, passed c, m, w1)))"

text \<open>
  The \<^verbatim>\<open>finally\<close> block: \<^verbatim>\<open>stop_all\<close>, \<^verbatim>\<open>cleanup_all\<close>, the last log record. An exception
  raised in it replaces the pending one and skips the rest of the block.
\<close>

definition finally_block :: "sched \<Rightarrow> exn option \<Rightarrow> manager \<Rightarrow> world \<Rightarrow> exn option \<times> world" where
  "finally_block c pending m w =
     (case stop_all_sig c m w of (r1, c1, m1, w1) \<Rightarrow>
        (case r1 of
           Some e \<Rightarrow> (Some e, w1)
         | None \<Rightarrow>
             (case cleanup_all_sig c1 m1 w1 of (r2, c2, m2, w2) \<Rightarrow>
                (case r2 of
                   Some e \<Rightarrow> (Some e, w2)
                 | None \<Rightarrow>
                     (case due c2 of
                        Some signum \<Rightarrow>
                          (case signal_handler signum m2 w2 of (e, m3, w3) \<Rightarrow> (Some e, w3))
                      | None \<Rightarrow>
                          (let w3 = logger INFO ''Load generator shutdown complete'' w2
                           in case due (passed c2) of
                                Some signum \<Rightarrow>
                                  (case signal_handler signum m2 w3 of (e, m3, w4) \<Rightarrow> (Some e, w4))
                              | None \<Rightarrow> (pending, w3)))))))"

text \<open>
  \<^verbatim>\<open>main\<close>, from the values read from the environment variables on; it returns the
  exception that leaves it, if any, and the world. The metrics server that does not start
  and an unknown workload type raise before the \<^verbatim>\<open>try\<close> block, and so does the handler of
  a signal that arrives there: the \<^verbatim>\<open>finally\<close> block does not run then. It runs on every
  way out of the \<^verbatim>\<open>try\<close> block.
\<close>

definition main :: "string \<Rightarrow> string \<Rightarrow> int \<Rightarrow> int \<Rightarrow> env \<Rightarrow> world \<Rightarrow> exn option \<times> world" where
  "main workload_type load_intensity dur metrics_port env w =
     (let w0 = logger INFO (''Workload: '' @ workload_type @ '', Intensity: '' @ load_intensity
                              @ '', Duration: '' @ str_int dur @ ''s'')
                 (logger INFO ''Starting GKE Load Generator'' w)
      in case start_http_server metrics_port (http_refused env) of
           Some e \<Rightarrow> (Some e, w0)
         | None \<Rightarrow>
             (let w1 = logger INFO (''Metrics server started on port '' @ str_int metrics_port) w0
              in case due (before_loop env) of
                   Some signum \<Rightarrow>
                     (case signal_handler signum LoadGeneratorManager_init w1 of
                        (e, m, w2) \<Rightarrow> (Some e, w2))
                 | None \<Rightarrow>
                     (case add_workload workload_type load_intensity LoadGeneratorManager_init w1 of
                        (r, m, w2) \<Rightarrow>
                          (case r of
                             Some e \<Rightarrow> (Some e, w2)
                           | None \<Rightarrow>
                               (case try_block dur (passed (before_loop env)) (in_loop env) m w2 of
                                  (raised, m3, w3) \<Rightarrow>
                                    (case after_try workload_type (after_loop env) raised m3 w3 of
                                       (pending, c, m4, w4) \<Rightarrow> finally_block c pending m4 w4))))))"

subsection \<open>What the properties speak about\<close>

text \<open>
  The thread lists of a generator, its own first and then those of its children; the
  buffers and the scratch files that a generator and its children hold.
\<close>

fun thread_lists :: "workload \<Rightarrow> nat list list" where
  "thread_lists (CPUWorkload b) = [threads b]"
| "thread_lists (MemoryWorkload b cs) = [threads b]"
| "thread_lists (NetworkWorkload b es) = [threads b]"
| "thread_lists (StorageWorkload b fs) = [threads b]"
| "thread_lists (MixedWorkload b ws) = threads b # concat (map thread_lists ws)"

definition all_threads :: "workload \<Rightarrow> nat list" where
  "all_threads g = concat (thread_lists g)"

fun all_memory_chunks :: "workload \<Rightarrow> int list" where
  "all_memory_chunks (MemoryWorkload b cs) = cs"
| "all_memory_chunks (MixedWorkload b ws) = concat (map all_memory_chunks ws)"
| "all_memory_chunks g = []"

fun all_temp_files :: "workload \<Rightarrow> string list" where
  "all_temp_files (StorageWorkload b fs) = fs"
| "all_temp_files (MixedWorkload b ws) = concat (map all_temp_files ws)"
| "all_temp_files g = []"

text \<open>A generator is stopped when its flag and the flags of its children are cleared.\<close>

fun stopped :: "workload \<Rightarrow> bool" where
  "stopped (MixedWorkload b ws) = (\<not> running b \<and> list_all stopped ws)"
| "stopped g = (\<not> running (base_of g))"

text \<open>The threads that a trace joins, in order.\<close>

fun joined :: "event list \<Rightarrow> nat list" where
  "joined [] = []"
| "joined (Thread_join t # es) = t # joined es"
| "joined (e # es) = joined es"

text \<open>The threads that a trace starts, in order.\<close>

fun started :: "event list \<Rightarrow> nat list" where
  "started [] = []"
| "started (Thread_start t # es) = t # started es"
| "started (e # es) = started es"

text \<open>
  A request in a pass of the network loop was answered when it returned a response; the
  responses of a pass are those up to the first endpoint at which the loop breaks or the
  request raises.
\<close>

fun answered :: "request \<Rightarrow> bool" where
  "answered (Response status_code) = True"
| "answered r = False"

definition responses :: "(string \<Rightarrow> request) \<Rightarrow> string list \<Rightarrow> request list" where
  "responses env es = map env (takeWhile (\<lambda>e. answered (env e)) es)"

text \<open>
  What is called a success status in HTTP: a status code of the class 2xx. The source tests
  for the one code 200.
\<close>

definition success_status :: "int \<Rightarrow> bool" where
  "success_status status_code = (200 \<le> status_code \<and> status_code < 300)"

text \<open>
  \<^verbatim>\<open>stop_all\<close> and \<^verbatim>\<open>cleanup_all\<close> each end with a log record of their own, which
  nothing else writes: the calls of the two that a trace has seen to their end are these
  records, in order. A call that a signal leaves unfinished writes no record.
\<close>

definition stop_all_done :: event where
  "stop_all_done = Log INFO ''All workloads stopped''"

definition cleanup_all_done :: event where
  "cleanup_all_done = Log INFO ''All workloads cleaned up''"

definition teardown_calls :: "event list \<Rightarrow> event list" where
  "teardown_calls es = filter (\<lambda>e. e = stop_all_done \<or> e = cleanup_all_done) es"

text \<open>
  The first thing other than a quiet second that happens within the duration of the run,
  if any; whether it is a signal; and what it raises in the run loop.
\<close>

definition first_tick :: "int \<Rightarrow> tick list \<Rightarrow> tick option" where
  "first_tick dur ticks =
     (case dropWhile (\<lambda>t. t = Slept) (take (nat dur) ticks) of [] \<Rightarrow> None | t # ts \<Rightarrow> Some t)"

fun signalled :: "tick option \<Rightarrow> bool" where
  "signalled (Some (Signal signum)) = True"
| "signalled t = False"

fun raised_by :: "tick option \<Rightarrow> exn option" where
  "raised_by None = None"
| "raised_by (Some Slept) = None"
| "raised_by (Some (Signal signum)) = Some (SystemExit 0)"
| "raised_by (Some Interrupt) = Some KeyboardInterrupt"
| "raised_by (Some (Fault e)) = Some (Exception e)"

subsection \<open>Concrete runs\<close>

text \<open>A world in which nothing has happened yet, on a machine with two processors.\<close>

definition boot :: world where
  "boot = \<lparr>trace = [], alive = {}, next_tid = 0, join_times_out = {}, files = {},
           os_remove_raises = [], cpu_count = 2\<rparr>"

text \<open>
  A storage generator is added and started, and its thread completes one pass of its loop
  at clock reading 100: the generator stored in the manager has recorded the file.
\<close>

definition storage_started :: "manager \<times> world" where
  "storage_started =
     (case add_workload ''storage'' ''low'' LoadGeneratorManager_init boot of
        (r, m, w) \<Rightarrow> start_all m w)"

definition storage_ran :: "manager \<times> world" where
  "storage_ran =
     (case storage_started of
        (m, w) \<Rightarrow>
          (case storage_stress 100 Written (temp_files (snd (hd (workloads m)))) w of
             (fs, w1) \<Rightarrow>
               (m\<lparr>workloads := [(''storage'', StorageWorkload (base_of (snd (hd (workloads m)))) fs)]\<rparr>,
                w1)))"

text \<open>The same run in a world where removing that file raises.\<close>

definition storage_ran_stuck :: "manager \<times> world" where
  "storage_ran_stuck =
     (fst storage_ran,
      (snd storage_ran)\<lparr>os_remove_raises := [(filename 100, ''Permission denied'')]\<rparr>)"

definition stuck_generator :: workload where
  "stuck_generator = snd (hd (workloads (fst storage_ran_stuck)))"

text \<open>
  The generator that the manager holds after that run, and the result of adding a storage
  workload again under the same key.
\<close>

definition prior_generator :: workload where
  "prior_generator = snd (hd (workloads (fst storage_ran)))"

definition storage_readded :: "exn option \<times> manager \<times> world" where
  "storage_readded = add_workload ''storage'' ''high'' (fst storage_ran) (snd storage_ran)"

text \<open>A run of \<^verbatim>\<open>main\<close> in which the metrics server starts and signals arrive in the
  polling loop only, if at all.\<close>

definition undisturbed :: "tick list \<Rightarrow> env" where
  "undisturbed ts = \<lparr>http_refused = None, before_loop = None, in_loop = ts, after_loop = None\<rparr>"

text \<open>
  The \<^verbatim>\<open>finally\<close> block on the manager and the world of the storage run above, with
  signal 15 arriving while \<^verbatim>\<open>stop_all\<close> waits in the join of the storage thread.
\<close>

definition finally_interrupted :: "exn option \<times> world" where
  "finally_interrupted = finally_block (Some (1, 15)) None (fst storage_ran) (snd storage_ran)"

text \<open>An environment in which every endpoint answers with status code 204.\<close>

definition always_204 :: "string \<Rightarrow> request" where
  "always_204 endpoint = Response 204"

section \<open>Properties\<close>

declare str_nat.simps [simp del] poll.simps [simp del]

subsection \<open>The world under an event, and loops over lists\<close>

lemma trace_emit [simp]: "trace (emit e w) = trace w @ [e]"
  and alive_emit [simp]: "alive (emit e w) = alive w"
  and next_tid_emit [simp]: "next_tid (emit e w) = next_tid w"
  and join_times_out_emit [simp]: "join_times_out (emit e w) = join_times_out w"
  and files_emit [simp]: "files (emit e w) = files w"
  and os_remove_raises_emit [simp]: "os_remove_raises (emit e w) = os_remove_raises w"
  and cpu_count_emit [simp]: "cpu_count (emit e w) = cpu_count w"
  by (simp_all add: emit_def)

lemma trace_logger [simp]: "trace (logger l msg w) = trace w @ [Log l msg]"
  and alive_logger [simp]: "alive (logger l msg w) = alive w"
  and next_tid_logger [simp]: "next_tid (logger l msg w) = next_tid w"
  and join_times_out_logger [simp]: "join_times_out (logger l msg w) = join_times_out w"
  and files_logger [simp]: "files (logger l msg w) = files w"
  and os_remove_raises_logger [simp]: "os_remove_raises (logger l msg w) = os_remove_raises w"
  and cpu_count_logger [simp]: "cpu_count (logger l msg w) = cpu_count w"
  by (simp_all add: logger_def)

lemma fst_map_st_Cons:
  "fst (map_st f (x # xs) s) = fst (f x s) # fst (map_st f xs (snd (f x s)))"
  by (simp split: prod.splits)

lemma snd_map_st_Cons: "snd (map_st f (x # xs) s) = snd (map_st f xs (snd (f x s)))"
  by (simp split: prod.splits)

lemma map_st_fixed: "(\<And>x u. x \<in> set xs \<Longrightarrow> f x u = (x, u)) \<Longrightarrow> map_st f xs s = (xs, s)"
  by (induction xs arbitrary: s) auto

lemma map_st_elem:
  "map_st f xs s = (ys, t) \<Longrightarrow> y \<in> set ys \<Longrightarrow> \<exists>x \<in> set xs. \<exists>u. y = fst (f x u)"
proof (induction xs arbitrary: s ys t)
  case Nil
  then show ?case by simp
next
  case (Cons x xs)
  obtain x' s1 where fx: "f x s = (x', s1)" by (cases "f x s")
  obtain xs' s2 where r: "map_st f xs s1 = (xs', s2)" by (cases "map_st f xs s1")
  from Cons.prems fx r have ys: "ys = x' # xs'" by simp
  show ?case
  proof (cases "y = x'")
    case True
    with fx show ?thesis by (metis fst_conv list.set_intros(1))
  next
    case False
    with ys Cons.prems(2) have "y \<in> set xs'" by simp
    from Cons.IH [OF r this] show ?thesis by auto
  qed
qed

lemma map_st_snd_inv:
  "(\<And>x u. x \<in> set xs \<Longrightarrow> h (snd (f x u)) = h u) \<Longrightarrow> h (snd (map_st f xs s)) = h s"
  by (induction xs arbitrary: s) (simp_all add: snd_map_st_Cons del: map_st.simps(2))

lemma map_st_fst_map:
  "(\<And>x u. x \<in> set xs \<Longrightarrow> h (fst (f x u)) = h x) \<Longrightarrow> map h (fst (map_st f xs s)) = map h xs"
  by (induction xs arbitrary: s) (simp_all add: fst_map_st_Cons del: map_st.simps(2))

lemma map_st_fst_rel:
  "(\<And>x u. x \<in> set xs \<Longrightarrow> R x (fst (f x u))) \<Longrightarrow> list_all2 R xs (fst (map_st f xs s))"
  by (induction xs arbitrary: s) (simp_all add: fst_map_st_Cons del: map_st.simps(2))

lemma map_st_fst_all:
  "(\<And>x u. x \<in> set xs \<Longrightarrow> P (fst (f x u))) \<Longrightarrow> list_all P (fst (map_st f xs s))"
  by (induction xs arbitrary: s) (simp_all add: fst_map_st_Cons del: map_st.simps(2))

lemma joined_append [simp]: "joined (xs @ ys) = joined xs @ joined ys"
  by (induction xs rule: joined.induct) simp_all

lemma started_append [simp]: "started (xs @ ys) = started xs @ started ys"
  by (induction xs rule: started.induct) simp_all

lemma requests_total_emit:
  "requests_total (emit e w) l =
     requests_total w l + (if e = LOAD_REQUESTS_TOTAL_inc l then 1 else 0)"
  by (simp add: requests_total_def)

lemma requests_total_logger [simp]: "requests_total (logger lv msg w) l = requests_total w l"
  by (simp add: requests_total_def)

subsection \<open>Intensity profiles\<close>

text \<open>
  C5. The lookup of an intensity label is a total function of the label: each of the four
  labels of the table resolves to its own row, and every other label resolves to the row
  of \<^verbatim>\<open>medium\<close>. The constructor of a generator stores the result of this lookup.
\<close>

theorem intensity_profile_lookup:
  "get_config ''low'' = \<lparr>cpu_percent = 20, memory_mb = 100, duration = 30\<rparr> \<and>
   get_config ''medium'' = \<lparr>cpu_percent = 50, memory_mb = 250, duration = 60\<rparr> \<and>
   get_config ''high'' = \<lparr>cpu_percent = 80, memory_mb = 500, duration = 120\<rparr> \<and>
   get_config ''custom'' = \<lparr>cpu_percent = 70, memory_mb = 300, duration = 90\<rparr> \<and>
   (i \<notin> {''low'', ''medium'', ''high'', ''custom''} \<longrightarrow> get_config i = get_config ''medium'') \<and>
   config (WorkloadGenerator_init n i) = get_config i"
  by (simp add: get_config_def intensity_levels_def WorkloadGenerator_init_def)

theorem intensity_profile_lookup_witness:
  "''extreme'' \<notin> {''low'', ''medium'', ''high'', ''custom''} \<and>
   get_config ''extreme'' = \<lparr>cpu_percent = 50, memory_mb = 250, duration = 60\<rparr>"
  using intensity_profile_lookup [where i = "''extreme''"] by simp

subsection \<open>Cleanup\<close>

lemma cleanup_settled: "cleanup g w = (g', w') \<Longrightarrow> cleanup g' u = (g', u)"
proof (induction g arbitrary: w g' w' u)
  case (MixedWorkload b ws)
  obtain ws1 w1 where r: "map_st cleanup ws w = (ws1, w1)" by (cases "map_st cleanup ws w")
  with MixedWorkload.prems have g': "g' = MixedWorkload b ws1" by simp
  have "\<And>y v. y \<in> set ws1 \<Longrightarrow> cleanup y v = (y, v)"
  proof -
    fix y v assume "y \<in> set ws1"
    from map_st_elem [OF r this] obtain x s where x: "x \<in> set ws" and y: "y = fst (cleanup x s)"
      by blast
    from MixedWorkload.IH [OF x, of s y "snd (cleanup x s)" v] y show "cleanup y v = (y, v)"
      by simp
  qed
  then have "map_st cleanup ws1 u = (ws1, u)" by (rule map_st_fixed)
  with g' show ?case by simp
qed auto

text \<open>
  C6. For every generator of every class, in every state and every world, a second
  \<^verbatim>\<open>cleanup()\<close> right after a first one changes nothing: neither the generator nor the
  world (its trace, its files) differ from what the first call left.
\<close>

theorem cleanup_idempotent:
  "cleanup (fst (cleanup g w)) (snd (cleanup g w)) = cleanup g w"
  using cleanup_settled [of g w "fst (cleanup g w)" "snd (cleanup g w)"] by simp

subsection \<open>The thread lists\<close>

lemma thread_lists_stop: "thread_lists (fst (stop g w)) = thread_lists g"
proof (induction g arbitrary: w)
  case (MixedWorkload b ws)
  have "map thread_lists (fst (map_st stop ws u)) = map thread_lists ws" for u
    by (rule map_st_fst_map) (simp add: MixedWorkload.IH)
  then show ?case by (simp add: base_stop_def case_prod_beta)
qed (simp_all add: base_stop_def)

lemma thread_lists_cleanup: "thread_lists (fst (cleanup g w)) = thread_lists g"
proof (induction g arbitrary: w)
  case (MixedWorkload b ws)
  have "map thread_lists (fst (map_st cleanup ws u)) = map thread_lists ws" for u
    by (rule map_st_fst_map) (simp add: MixedWorkload.IH)
  then show ?case by (simp add: case_prod_beta)
qed simp_all

lemma spawn_threads:
  "threads (fst (spawn n b w)) = threads b @ [next_tid w ..< next_tid w + n]"
proof (induction n arbitrary: b w)
  case 0
  then show ?case by simp
next
  case (Suc n)
  show ?case by (simp add: Let_def Suc.IH upt_conv_Cons)
qed

lemma list_all2_concat_map:
  "list_all2 (\<lambda>x y. list_all2 R (h x) (h y)) xs ys \<Longrightarrow>
   list_all2 R (concat (map h xs)) (concat (map h ys))"
  by (induction xs ys rule: list_all2_induct) (auto intro: list_all2_appendI)

lemma thread_lists_start: "list_all2 prefix (thread_lists g) (thread_lists (fst (start g w)))"
proof (induction g arbitrary: w)
  case (MixedWorkload b ws)
  have "list_all2 (\<lambda>x y. list_all2 prefix (thread_lists x) (thread_lists y)) ws
          (fst (map_st start ws u))" for u
    by (rule map_st_fst_rel) (simp add: MixedWorkload.IH)
  from list_all2_concat_map [OF this] show ?case
    by (simp add: base_start_def case_prod_beta)
qed (simp_all add: case_prod_beta base_start_def spawn_threads Let_def)

lemma start_appends:
  "threads (base_of (fst (start (CPUWorkload b) w))) =
     threads b @ [next_tid w ..< next_tid w + cpu_count w]"
  "threads (base_of (fst (start (MemoryWorkload b cs) w))) = threads b @ [next_tid w]"
  "threads (base_of (fst (start (NetworkWorkload b es) w))) =
     threads b @ [next_tid w ..< next_tid w + 3]"
  "threads (base_of (fst (start (StorageWorkload b fs) w))) = threads b @ [next_tid w]"
  by (simp_all add: case_prod_beta base_start_def spawn_threads Let_def)

text \<open>
  C10. Neither \<^verbatim>\<open>stop()\<close> nor \<^verbatim>\<open>cleanup()\<close> changes \<^verbatim>\<open>self.threads\<close>, of the generator
  or of a child: the handles of joined threads stay in the list. A \<^verbatim>\<open>start()\<close>, also one
  after a stop, keeps every thread list as a prefix of the new one; on the four classes
  that own threads it appends the handles of the threads it starts (one for memory and
  storage, three for network, one for each processor for CPU).
\<close>

theorem threads_retained:
  "thread_lists (fst (stop g w)) = thread_lists g \<and>
   thread_lists (fst (cleanup g w)) = thread_lists g \<and>
   list_all2 prefix (thread_lists g) (thread_lists (fst (start (fst (stop g w)) w'))) \<and>
   threads (base_of (fst (start (CPUWorkload b) w))) =
     threads b @ [next_tid w ..< next_tid w + cpu_count w] \<and>
   threads (base_of (fst (start (MemoryWorkload b cs) w))) = threads b @ [next_tid w] \<and>
   threads (base_of (fst (start (NetworkWorkload b es) w))) =
     threads b @ [next_tid w ..< next_tid w + 3] \<and>
   threads (base_of (fst (start (StorageWorkload b fs) w))) = threads b @ [next_tid w]"
  using thread_lists_start [of "fst (stop g w)" w']
  by (simp only: thread_lists_stop thread_lists_cleanup start_appends simp_thms)

subsection \<open>Stopping a generator that was never started\<close>

lemma all_threads_Mixed:
  "all_threads (MixedWorkload b ws) = threads b @ concat (map all_threads ws)"
  by (induction ws) (simp_all add: all_threads_def)

lemma all_threads_leaf [simp]:
  "all_threads (CPUWorkload b) = threads b"
  "all_threads (MemoryWorkload b cs) = threads b"
  "all_threads (NetworkWorkload b es) = threads b"
  "all_threads (StorageWorkload b fs) = threads b"
  by (simp_all add: all_threads_def)

lemma stop_stopped: "stopped (fst (stop g w))"
proof (induction g arbitrary: w)
  case (MixedWorkload b ws)
  have "list_all stopped (fst (map_st stop ws u))" for u
    by (rule map_st_fst_all) (simp add: MixedWorkload.IH)
  then show ?case by (simp add: base_stop_def case_prod_beta)
qed (simp_all add: base_stop_def)

lemma stop_idle:
  "all_threads g = [] \<Longrightarrow>
   joined (trace (snd (stop g w))) = joined (trace w) \<and> alive (snd (stop g w)) = alive w"
proof (induction g arbitrary: w)
  case (MixedWorkload b ws)
  from MixedWorkload.prems
  have b: "threads b = []" and c: "\<And>x. x \<in> set ws \<Longrightarrow> all_threads x = []"
    by (simp_all add: all_threads_Mixed)
  have "(\<lambda>s. (joined (trace s), alive s)) (snd (map_st stop ws u)) =
        (\<lambda>s. (joined (trace s), alive s)) u" for u
    by (rule map_st_snd_inv) (simp add: MixedWorkload.IH c)
  then show ?case using b by (simp add: base_stop_def case_prod_beta)
qed (simp_all add: base_stop_def)

text \<open>
  C9. \<^verbatim>\<open>stop()\<close> on a generator that was never started, so that its thread list and those
  of its children are empty, returns (the model has no raising branch, the source has no
  raising call on this path), leaves the generator and its children with the flag cleared,
  joins no thread, and leaves the set of live threads and the empty thread lists as they were.
\<close>

theorem stop_never_started:
  "all_threads g = [] \<Longrightarrow>
   stopped (fst (stop g w)) \<and>
   joined (trace (snd (stop g w))) = joined (trace w) \<and>
   alive (snd (stop g w)) = alive w \<and>
   all_threads (fst (stop g w)) = []"
  using stop_idle [of g w] by (simp add: stop_stopped all_threads_def thread_lists_stop)

theorem stop_never_started_witness:
  "all_threads (MixedWorkload_init ''low'') = [] \<and>
   stopped (fst (stop (MixedWorkload_init ''low'') boot)) \<and>
   joined (trace (snd (stop (MixedWorkload_init ''low'') boot))) = [] \<and>
   alive (snd (stop (MixedWorkload_init ''low'') boot)) = {}"
proof -
  have h: "all_threads (MixedWorkload_init ''low'') = []"
    by (simp add: all_threads_def MixedWorkload_init_def CPUWorkload_init_def
          MemoryWorkload_init_def NetworkWorkload_init_def StorageWorkload_init_def
          WorkloadGenerator_init_def)
  from stop_never_started [OF h, of boot] h show ?thesis by (simp add: boot_def)
qed

subsection \<open>The request counter of the network loop\<close>

lemma network_requests_count:
  "requests_total (snd (network_requests env es w)) ''network'' =
     requests_total w ''network'' + length (filter (\<lambda>r. r = Response 200) (responses env es))"
proof (induction es arbitrary: w)
  case Nil
  then show ?case by (simp add: responses_def)
next
  case (Cons e es)
  show ?case
  proof (cases "env e")
    case Stop_seen
    then show ?thesis by (simp add: responses_def)
  next
    case (Response status_code)
    then show ?thesis using Cons.IH by (simp add: responses_def requests_total_emit)
  next
    case (Request_raises x)
    then show ?thesis by (simp add: responses_def)
  qed
qed

text \<open>
  C7, as the code has it. In one pass of the loop of \<^verbatim>\<open>_network_stress\<close>, whatever the
  endpoints and whatever the environment answers, the counter of requests labelled
  \<^verbatim>\<open>network\<close> grows by the number of responses of the pass whose status code is 200: once
  for each of them, and not for a response with any other status code (another success
  status such as 201 or 204 included), nor for a request that raised or was not made.
\<close>

theorem network_counts_successes:
  "requests_total (network_stress thread_id env es w) ''network'' =
     requests_total w ''network'' + length (filter (\<lambda>r. r = Response 200) (responses env es))"
  using network_requests_count [of env es w]
  by (cases "network_requests env es w")
     (auto simp: network_stress_def requests_total_emit split: option.splits)

text \<open>
  C7 as stated fails for a success status other than 200: every endpoint answers 204, a
  success status; the four responses of the pass leave the counter at 0.
\<close>

theorem success_status_not_counted:
  "success_status 204 \<and>
   responses always_204 endpoints_init = [Response 204, Response 204, Response 204, Response 204] \<and>
   requests_total (network_stress 0 always_204 endpoints_init boot) ''network'' = 0"
  by code_simp

subsection \<open>The manager\<close>

text \<open>
  C4. For a workload type that is none of \<^verbatim>\<open>cpu\<close>, \<^verbatim>\<open>memory\<close>, \<^verbatim>\<open>network\<close>, \<^verbatim>\<open>storage\<close>,
  \<^verbatim>\<open>mixed\<close>, \<^verbatim>\<open>add_workload\<close> raises \<^verbatim>\<open>ValueError("Unknown workload type: ...")\<close>, and the
  manager (its mapping with it) and the world are what they were: no generator was
  constructed or started, nothing was logged.
\<close>

theorem add_workload_unknown:
  "workload_type \<notin> {''cpu'', ''memory'', ''network'', ''storage'', ''mixed''} \<Longrightarrow>
   add_workload workload_type i m w =
     (Some (ValueError (''Unknown workload type: '' @ workload_type)), m, w)"
  by (simp add: add_workload_def workload_map_def)

theorem add_workload_unknown_witness:
  "''gpu'' \<notin> {''cpu'', ''memory'', ''network'', ''storage'', ''mixed''} \<and>
   add_workload ''gpu'' ''high'' LoadGeneratorManager_init boot =
     (Some (ValueError ''Unknown workload type: gpu''), LoadGeneratorManager_init, boot)"
  using add_workload_unknown [of "''gpu''" "''high''" LoadGeneratorManager_init boot] by simp

text \<open>
  C8. When the mapping of the manager is empty, \<^verbatim>\<open>start_all\<close> returns with the manager as
  it was, its running flag with it (the early return comes before the assignment), and a
  world that differs by one warning in the log: no thread was started. For a manager as
  constructed the flag is False before and after.
\<close>

theorem start_all_empty:
  "workloads m = [] \<Longrightarrow>
   start_all m w = (m, logger WARNING ''No workloads configured'' w) \<and>
   manager_running (fst (start_all m w)) = manager_running m \<and>
   trace (snd (start_all m w)) = trace w @ [Log WARNING ''No workloads configured''] \<and>
   started (trace (snd (start_all m w))) = started (trace w) \<and>
   alive (snd (start_all m w)) = alive w \<and>
   next_tid (snd (start_all m w)) = next_tid w"
  by (simp add: start_all_def)

theorem start_all_empty_witness:
  "workloads LoadGeneratorManager_init = [] \<and>
   fst (start_all LoadGeneratorManager_init boot) = LoadGeneratorManager_init \<and>
   manager_running (fst (start_all LoadGeneratorManager_init boot)) = False \<and>
   trace (snd (start_all LoadGeneratorManager_init boot)) = [Log WARNING ''No workloads configured''] \<and>
   alive (snd (start_all LoadGeneratorManager_init boot)) = {} \<and>
   next_tid (snd (start_all LoadGeneratorManager_init boot)) = 0"
proof -
  have h: "workloads LoadGeneratorManager_init = []"
    by (simp add: LoadGeneratorManager_init_def)
  from start_all_empty [OF h, of boot] h show ?thesis
    by (simp add: boot_def LoadGeneratorManager_init_def)
qed

subsection \<open>Artifacts after stop and cleanup\<close>

lemma join_frame [simp]:
  "files (join t w) = files w" "os_remove_raises (join t w) = os_remove_raises w"
  by (simp_all add: join_def Let_def)

lemma join_all_frame [simp]:
  "files (join_all ts w) = files w" "os_remove_raises (join_all ts w) = os_remove_raises w"
  by (induction ts arbitrary: w) simp_all

lemma stop_frame:
  "files (snd (stop g w)) = files w \<and> os_remove_raises (snd (stop g w)) = os_remove_raises w"
proof (induction g arbitrary: w)
  case (MixedWorkload b ws)
  have "(\<lambda>s. (files s, os_remove_raises s)) (snd (map_st stop ws u)) =
        (\<lambda>s. (files s, os_remove_raises s)) u" for u
    by (rule map_st_snd_inv) (simp add: MixedWorkload.IH)
  then show ?case by (simp add: base_stop_def case_prod_beta)
qed (simp_all add: base_stop_def)

lemma stop_temp_files: "all_temp_files (fst (stop g w)) = all_temp_files g"
proof (induction g arbitrary: w)
  case (MixedWorkload b ws)
  have "map all_temp_files (fst (map_st stop ws u)) = map all_temp_files ws" for u
    by (rule map_st_fst_map) (simp add: MixedWorkload.IH)
  then show ?case by (simp add: base_stop_def case_prod_beta)
qed (simp_all add: base_stop_def)

lemma remove_temp_file_frame:
  "files (remove_temp_file p w) = files w - {q. q = p \<and> map_of (os_remove_raises w) q = None}"
  "os_remove_raises (remove_temp_file p w) = os_remove_raises w"
  by (auto simp: remove_temp_file_def split: option.splits)

lemma fold_remove_temp_file:
  "files (fold remove_temp_file fs w) =
     files w - {p \<in> set fs. map_of (os_remove_raises w) p = None} \<and>
   os_remove_raises (fold remove_temp_file fs w) = os_remove_raises w"
  by (induction fs arbitrary: w) (auto simp: remove_temp_file_frame)

lemma map_st_cleanup_files:
  assumes "\<And>x u. x \<in> set ws \<Longrightarrow>
             files (snd (cleanup x u)) =
               files u - {p \<in> set (all_temp_files x). map_of (os_remove_raises u) p = None} \<and>
             os_remove_raises (snd (cleanup x u)) = os_remove_raises u"
  shows "files (snd (map_st cleanup ws w)) =
           files w - {p \<in> set (concat (map all_temp_files ws)). map_of (os_remove_raises w) p = None} \<and>
         os_remove_raises (snd (map_st cleanup ws w)) = os_remove_raises w"
  using assms
proof (induction ws arbitrary: w)
  case Nil
  then show ?case by simp
next
  case (Cons x xs)
  have x: "files (snd (cleanup x w)) =
             files w - {p \<in> set (all_temp_files x). map_of (os_remove_raises w) p = None}"
    and r: "os_remove_raises (snd (cleanup x w)) = os_remove_raises w"
    using Cons.prems [of x w] by simp_all
  have "files (snd (map_st cleanup xs (snd (cleanup x w)))) =
          files (snd (cleanup x w)) -
            {p \<in> set (concat (map all_temp_files xs)). map_of (os_remove_raises (snd (cleanup x w))) p = None} \<and>
        os_remove_raises (snd (map_st cleanup xs (snd (cleanup x w)))) = os_remove_raises (snd (cleanup x w))"
    by (rule Cons.IH) (simp add: Cons.prems)
  with x r show ?case by (auto simp: snd_map_st_Cons simp del: map_st.simps(2))
qed

lemma cleanup_files:
  "files (snd (cleanup g w)) =
     files w - {p \<in> set (all_temp_files g). map_of (os_remove_raises w) p = None} \<and>
   os_remove_raises (snd (cleanup g w)) = os_remove_raises w"
proof (induction g arbitrary: w)
  case (MixedWorkload b ws)
  from map_st_cleanup_files [of ws w, OF MixedWorkload.IH] show ?case
    by (simp add: case_prod_beta)
next
  case (StorageWorkload b fs)
  then show ?case using fold_remove_temp_file [of fs w] by simp
qed simp_all

lemma concat_map_empty: "list_all (\<lambda>y. h y = []) ys \<Longrightarrow> concat (map h ys) = []"
  by (simp add: list_all_iff)

lemma cleanup_no_artifacts:
  "all_memory_chunks (fst (cleanup g w)) = [] \<and> all_temp_files (fst (cleanup g w)) = []"
proof (induction g arbitrary: w)
  case (MixedWorkload b ws)
  have "list_all (\<lambda>y. all_memory_chunks y = []) (fst (map_st cleanup ws w))"
    by (rule map_st_fst_all) (simp add: MixedWorkload.IH)
  then have m: "concat (map all_memory_chunks (fst (map_st cleanup ws w))) = []"
    by (rule concat_map_empty)
  have "list_all (\<lambda>y. all_temp_files y = []) (fst (map_st cleanup ws w))"
    by (rule map_st_fst_all) (simp add: MixedWorkload.IH)
  then have t: "concat (map all_temp_files (fst (map_st cleanup ws w))) = []"
    by (rule concat_map_empty)
  from m t show ?case by (simp add: case_prod_beta)
qed simp_all

text \<open>
  C3, as the code has it. For every generator of every class, in every state that its loops
  can have left (any number of passes, any buffers and recorded files) and every world,
  after \<^verbatim>\<open>stop()\<close> and then \<^verbatim>\<open>cleanup()\<close> the generator and its children retain no buffer
  and record no scratch file, and the files on disk are those of before without the
  recorded files whose removal does not raise. A recorded file whose \<^verbatim>\<open>os.remove\<close> raises
  stays on disk (the loop of \<^verbatim>\<open>cleanup\<close> logs a warning and goes on).
\<close>

theorem stop_cleanup_artifacts:
  "all_memory_chunks (fst (cleanup (fst (stop g w)) (snd (stop g w)))) = [] \<and>
   all_temp_files (fst (cleanup (fst (stop g w)) (snd (stop g w)))) = [] \<and>
   files (snd (cleanup (fst (stop g w)) (snd (stop g w)))) =
     files w - {p \<in> set (all_temp_files g). map_of (os_remove_raises w) p = None}"
  using cleanup_files [of "fst (stop g w)" "snd (stop g w)"]
  by (simp add: cleanup_no_artifacts stop_frame stop_temp_files)

text \<open>
  C3 as stated fails: a storage generator was started and has written and recorded the
  file of clock reading 100; removing that file raises. After \<^verbatim>\<open>stop()\<close> and
  \<^verbatim>\<open>cleanup()\<close> the recorded file still exists.
\<close>

theorem recorded_file_survives_cleanup:
  "filename 100 \<in> set (temp_files stuck_generator) \<and>
   filename 100 \<in> files (snd (cleanup (fst (stop stuck_generator (snd storage_ran_stuck)))
                                (snd (stop stuck_generator (snd storage_ran_stuck)))))"
  by code_simp

subsection \<open>Adding a workload under a key that is present\<close>

lemma count_key:
  "distinct (map fst al) \<Longrightarrow> k \<in> fst ` set al \<Longrightarrow> length (filter (\<lambda>kv. fst kv = k) al) = 1"
proof (induction al)
  case Nil
  then show ?case by simp
next
  case (Cons a al)
  show ?case
  proof (cases "fst a = k")
    case True
    with Cons.prems(1) have "k \<notin> fst ` set al" by auto
    then have "filter (\<lambda>kv. fst kv = k) al = []" by (auto simp: filter_empty_conv)
    with True show ?thesis by simp
  next
    case False
    with Cons show ?thesis by auto
  qed
qed

text \<open>
  C2, as the code has it. For a manager whose mapping holds the key \<open>k\<close> of one of the five
  classes, \<^verbatim>\<open>add_workload(k, intensity)\<close> returns, puts a newly constructed generator in
  the place of the prior one, and leaves exactly one generator under \<open>k\<close> and the keys as
  they were. It does not stop or clean up the prior instance: the world differs by the one
  log record of the call, no thread is joined, the live threads and the files on disk are
  what they were.
\<close>

theorem add_workload_replaces:
  assumes "map_of workload_map k = Some workload_class"
    and "k \<in> fst ` set (workloads m)"
    and "distinct (map fst (workloads m))"
  shows "fst (add_workload k i m w) = None \<and>
         map_of (workloads (fst (snd (add_workload k i m w)))) k = Some (workload_class i) \<and>
         map fst (workloads (fst (snd (add_workload k i m w)))) = map fst (workloads m) \<and>
         length (filter (\<lambda>kv. fst kv = k) (workloads (fst (snd (add_workload k i m w))))) = 1 \<and>
         snd (snd (add_workload k i m w)) =
           logger INFO (''Added '' @ k @ '' workload with '' @ i @ '' intensity'') w \<and>
         joined (trace (snd (snd (add_workload k i m w)))) = joined (trace w) \<and>
         alive (snd (snd (add_workload k i m w))) = alive w \<and>
         files (snd (snd (add_workload k i m w))) = files w"
proof -
  let ?al = "AList.update k (workload_class i) (workloads m)"
  have keys: "map fst ?al = map fst (workloads m)"
    using assms(2) by (simp add: update_keys)
  have d: "distinct (map fst ?al)" using assms(3) by (rule distinct_update)
  have k: "k \<in> fst ` set ?al" using keys assms(2) by (metis set_map)
  have cnt: "length (filter (\<lambda>kv. fst kv = k) ?al) = 1" using d k by (rule count_key)
  show ?thesis using assms(1) keys cnt
    by (simp add: add_workload_def update_conv')
qed

theorem add_workload_replaces_witness:
  "map_of workload_map ''storage'' = Some StorageWorkload_init \<and>
   ''storage'' \<in> fst ` set (workloads (fst storage_ran)) \<and>
   distinct (map fst (workloads (fst storage_ran))) \<and>
   fst storage_readded = None \<and>
   map_of (workloads (fst (snd storage_readded))) ''storage'' = Some (StorageWorkload_init ''high'') \<and>
   length (filter (\<lambda>kv. fst kv = ''storage'') (workloads (fst (snd storage_readded)))) = 1 \<and>
   alive (snd (snd storage_readded)) = alive (snd storage_ran)"
proof -
  have a: "map_of workload_map ''storage'' = Some StorageWorkload_init"
    by (simp add: workload_map_def)
  have b: "''storage'' \<in> fst ` set (workloads (fst storage_ran))" by code_simp
  have c: "distinct (map fst (workloads (fst storage_ran)))" by code_simp
  from add_workload_replaces [OF a b c, of "''high''" "snd storage_ran"] a b c
  show ?thesis by (simp add: storage_readded_def)
qed

text \<open>
  C2 as stated fails: the manager holds a storage generator that is running, with its
  thread 0 alive and the file of clock reading 100 recorded. After a second
  \<^verbatim>\<open>add_workload("storage", "high")\<close> the mapping holds a new generator, while the thread
  of the prior one is still alive and was never joined, and its file is still on disk.
\<close>

theorem prior_instance_not_torn_down:
  "running (base_of prior_generator) \<and>
   threads (base_of prior_generator) = [0] \<and>
   temp_files prior_generator = [filename 100] \<and>
   fst storage_readded = None \<and>
   workloads (fst (snd storage_readded)) = [(''storage'', StorageWorkload_init ''high'')] \<and>
   0 \<in> alive (snd (snd storage_readded)) \<and>
   joined (trace (snd (snd storage_readded))) = [] \<and>
   filename 100 \<in> files (snd (snd storage_readded))"
  by code_simp

subsection \<open>The teardown of the run loop\<close>

lemma teardown_calls_append [simp]:
  "teardown_calls (xs @ ys) = teardown_calls xs @ teardown_calls ys"
  by (simp add: teardown_calls_def)

lemma teardown_calls_Nil [simp]: "teardown_calls [] = []"
  by (simp add: teardown_calls_def)

lemma teardown_calls_other [simp]:
  "teardown_calls [Thread_start t] = []"
  "teardown_calls [Thread_join t] = []"
  "teardown_calls [Os_remove p] = []"
  "teardown_calls [ERROR_COUNT_inc l] = []"
  "teardown_calls [Log WARNING msg] = []"
  "teardown_calls [Log ERROR msg] = []"
  by (simp_all add: teardown_calls_def stop_all_done_def cleanup_all_done_def)

lemma teardown_calls_Cons2 [simp]:
  "teardown_calls (e # e' # es) = teardown_calls [e] @ teardown_calls (e' # es)"
  by (simp add: teardown_calls_def)

lemma teardown_calls_info:
  "msg \<noteq> ''All workloads stopped'' \<Longrightarrow> msg \<noteq> ''All workloads cleaned up'' \<Longrightarrow>
   teardown_calls [Log INFO msg] = []"
  by (simp add: teardown_calls_def stop_all_done_def cleanup_all_done_def)

lemma teardown_calls_done [simp]:
  "teardown_calls [Log INFO ''All workloads stopped''] = [stop_all_done]"
  "teardown_calls [Log INFO ''All workloads cleaned up''] = [cleanup_all_done]"
  by (simp_all add: teardown_calls_def stop_all_done_def cleanup_all_done_def)

lemma spawn_calls: "teardown_calls (trace (snd (spawn n b w))) = teardown_calls (trace w)"
  by (induction n arbitrary: b w) (simp_all add: Let_def)

lemma join_all_calls: "teardown_calls (trace (join_all ts w)) = teardown_calls (trace w)"
  by (induction ts arbitrary: w) (simp_all add: join_def Let_def)

lemma fold_remove_calls:
  "teardown_calls (trace (fold remove_temp_file fs w)) = teardown_calls (trace w)"
  by (induction fs arbitrary: w) (simp_all add: remove_temp_file_def split: option.splits)

lemma base_start_calls: "teardown_calls (trace (snd (base_start b w))) = teardown_calls (trace w)"
  by (simp add: base_start_def teardown_calls_info)

lemma base_stop_calls: "teardown_calls (trace (snd (base_stop b w))) = teardown_calls (trace w)"
  by (simp add: base_stop_def teardown_calls_info join_all_calls)

lemma start_calls: "teardown_calls (trace (snd (start g w))) = teardown_calls (trace w)"
proof (induction g arbitrary: w)
  case (MixedWorkload b ws)
  have "(\<lambda>s. teardown_calls (trace s)) (snd (map_st start ws u)) = (\<lambda>s. teardown_calls (trace s)) u" for u
    by (rule map_st_snd_inv) (simp add: MixedWorkload.IH)
  then show ?case by (simp add: case_prod_beta base_start_calls)
qed (simp_all add: case_prod_beta spawn_calls base_start_calls del: spawn.simps)

lemma stop_calls: "teardown_calls (trace (snd (stop g w))) = teardown_calls (trace w)"
proof (induction g arbitrary: w)
  case (MixedWorkload b ws)
  have "(\<lambda>s. teardown_calls (trace s)) (snd (map_st stop ws u)) = (\<lambda>s. teardown_calls (trace s)) u" for u
    by (rule map_st_snd_inv) (simp add: MixedWorkload.IH)
  then show ?case by (simp add: case_prod_beta base_stop_calls)
qed (simp_all add: case_prod_beta base_stop_calls)

lemma cleanup_calls: "teardown_calls (trace (snd (cleanup g w))) = teardown_calls (trace w)"
proof (induction g arbitrary: w)
  case (MixedWorkload b ws)
  have "(\<lambda>s. teardown_calls (trace s)) (snd (map_st cleanup ws u)) = (\<lambda>s. teardown_calls (trace s)) u" for u
    by (rule map_st_snd_inv) (simp add: MixedWorkload.IH)
  then show ?case by (simp add: case_prod_beta)
qed (simp_all add: fold_remove_calls)

lemma on_value_calls:
  "(\<And>g u. teardown_calls (trace (snd (f g u))) = teardown_calls (trace u)) \<Longrightarrow>
   teardown_calls (trace (snd (map_st (on_value f) kvs w))) = teardown_calls (trace w)"
  by (rule map_st_snd_inv [where h = "\<lambda>s. teardown_calls (trace s)"])
     (simp add: on_value_def case_prod_beta)

lemma start_all_calls:
  "teardown_calls (trace (snd (start_all m w))) = teardown_calls (trace w)"
  by (simp add: start_all_def case_prod_beta on_value_calls start_calls teardown_calls_info)

lemma start_all_signal: "signal_received (fst (start_all m w)) = signal_received m"
  by (simp add: start_all_def case_prod_beta)

lemma stop_all_calls:
  "teardown_calls (trace (snd (stop_all m w))) = teardown_calls (trace w) @ [stop_all_done]"
  by (simp add: stop_all_def case_prod_beta on_value_calls stop_calls)

lemma cleanup_all_calls:
  "teardown_calls (trace (snd (cleanup_all m w))) = teardown_calls (trace w) @ [cleanup_all_done]"
  by (simp add: cleanup_all_def case_prod_beta on_value_calls cleanup_calls)

lemma signal_handler_calls:
  "fst (signal_handler signum m w) = SystemExit 0 \<and>
   teardown_calls (trace (snd (snd (signal_handler signum m w)))) =
     teardown_calls (trace w) @ [stop_all_done]"
  by (simp add: signal_handler_def case_prod_beta stop_all_calls teardown_calls_info)

lemma progress_calls: "teardown_calls (trace (progress e w)) = teardown_calls (trace w)"
  by (simp add: progress_def teardown_calls_info)

lemma nat_diff_step: "nat (dur - elapsed) - Suc 0 = nat (dur - (elapsed + 1))"
  by arith

lemma first_tick_step:
  "elapsed < dur \<Longrightarrow> first_tick (dur - elapsed) (Slept # ts) = first_tick (dur - (elapsed + 1)) ts"
  "elapsed < dur \<Longrightarrow> t \<noteq> Slept \<Longrightarrow> first_tick (dur - elapsed) (t # ts) = Some t"
  "first_tick d [] = None"
  "\<not> elapsed < dur \<Longrightarrow> first_tick (dur - elapsed) ts = None"
  by (simp_all add: first_tick_def take_Cons' nat_diff_step)

lemma poll_result:
  "\<not> signal_received m \<Longrightarrow>
   fst (poll elapsed dur ticks m w) = raised_by (first_tick (dur - elapsed) ticks) \<and>
   teardown_calls (trace (snd (snd (poll elapsed dur ticks m w)))) =
     teardown_calls (trace w) @
       (if signalled (first_tick (dur - elapsed) ticks) then [stop_all_done] else [])"
proof (induction elapsed dur ticks m w rule: poll.induct)
  case (1 elapsed dur ticks m w)
  show ?case
  proof (cases "elapsed < dur")
    case False
    with 1 show ?thesis by (simp add: poll.simps [of elapsed] first_tick_step)
  next
    case True
    note lt = True
    show ?thesis
    proof (cases ticks)
      case Nil
      with lt 1 show ?thesis
        by (simp add: poll.simps [of elapsed] first_tick_step progress_calls)
    next
      case (Cons t ts)
      show ?thesis
      proof (cases t)
        case Slept
        with Cons lt 1 show ?thesis
          by (simp add: poll.simps [of elapsed] first_tick_step progress_calls)
      next
        case (Signal signum)
        with Cons lt 1 show ?thesis
          using signal_handler_calls [of signum m w]
          by (simp add: poll.simps [of elapsed] first_tick_step case_prod_beta)
      next
        case Interrupt
        with Cons lt 1 show ?thesis
          by (simp add: poll.simps [of elapsed] first_tick_step)
      next
        case (Fault e)
        with Cons lt 1 show ?thesis
          by (simp add: poll.simps [of elapsed] first_tick_step)
      qed
    qed
  qed
qed

lemma except_clauses_result:
  "r = raised_by t \<Longrightarrow>
   fst (except_clauses wt r w) = (if signalled t then Some (SystemExit 0) else None) \<and>
   teardown_calls (trace (snd (except_clauses wt r w))) = teardown_calls (trace w)"
  by (cases t rule: raised_by.cases) (simp_all add: teardown_calls_info)

lemma add_workload_known:
  "workload_type \<in> {''cpu'', ''memory'', ''network'', ''storage'', ''mixed''} \<Longrightarrow>
   fst (add_workload workload_type i m w) = None \<and>
   signal_received (fst (snd (add_workload workload_type i m w))) = signal_received m \<and>
   teardown_calls (trace (snd (snd (add_workload workload_type i m w)))) = teardown_calls (trace w)"
  by (auto simp: add_workload_def workload_map_def teardown_calls_info)

text \<open>Without a signal on its way, the calls are the calls during which no signal arrives.\<close>

lemma map_st_sig_None:
  "(\<And>x u. x \<in> set xs \<Longrightarrow> f None x u = (None, None, g x u)) \<Longrightarrow>
   map_st_sig f None xs s = (None, None, map_st g xs s)"
  by (induction xs arbitrary: s) (simp_all split: prod.splits)

lemma spawn_sig_None: "spawn_sig None n b w = (None, None, spawn n b w)"
  by (induction n arbitrary: b w) (simp_all add: Let_def)

lemma start_sig_None: "start_sig None g w = (None, None, start g w)"
proof (induction g arbitrary: w)
  case (MixedWorkload b ws)
  have "map_st_sig start_sig None ws u = (None, None, map_st start ws u)" for u
    by (rule map_st_sig_None) (simp add: MixedWorkload.IH)
  then show ?case by (simp split: prod.splits)
qed (simp_all add: spawn_sig_None split: prod.splits del: spawn.simps spawn_sig.simps)

lemma join_all_sig_None: "join_all_sig None ts w = (None, None, join_all ts w)"
  by (induction ts arbitrary: w) simp_all

lemma base_stop_sig_None: "base_stop_sig None b w = (None, None, base_stop b w)"
  by (simp add: base_stop_sig_def base_stop_def join_all_sig_None)

lemma stop_sig_None: "stop_sig None g w = (None, None, stop g w)"
proof (induction g arbitrary: w)
  case (MixedWorkload b ws)
  have "map_st_sig stop_sig None ws u = (None, None, map_st stop ws u)" for u
    by (rule map_st_sig_None) (simp add: MixedWorkload.IH)
  then show ?case by (simp add: base_stop_sig_None split: prod.splits)
qed (simp_all add: base_stop_sig_None split: prod.splits)

lemma remove_temp_files_sig_None:
  "remove_temp_files_sig None fs w = (None, None, fold remove_temp_file fs w)"
  by (induction fs arbitrary: w) (simp_all add: remove_temp_file_def)

lemma cleanup_sig_None: "cleanup_sig None g w = (None, None, cleanup g w)"
proof (induction g arbitrary: w)
  case (MixedWorkload b ws)
  have "map_st_sig cleanup_sig None ws u = (None, None, map_st cleanup ws u)" for u
    by (rule map_st_sig_None) (simp add: MixedWorkload.IH)
  then show ?case by (simp split: prod.splits)
qed (simp_all add: remove_temp_files_sig_None)

lemma on_value_sig_None:
  "(\<And>g u. f None g u = (None, None, h g u)) \<Longrightarrow>
   map_st_sig (on_value_sig f) None kvs w = (None, None, map_st (on_value h) kvs w)"
  by (rule map_st_sig_None) (simp add: on_value_sig_def on_value_def split: prod.splits)

lemma start_all_sig_None: "start_all_sig None m w = (None, None, start_all m w)"
  by (simp add: start_all_sig_def start_all_def on_value_sig_None [of start_sig start]
        start_sig_None split: prod.splits)

lemma stop_all_sig_None: "stop_all_sig None m w = (None, None, stop_all m w)"
  by (simp add: stop_all_sig_def stop_all_def on_value_sig_None [of stop_sig stop] stop_sig_None
        split: prod.splits)

lemma cleanup_all_sig_None: "cleanup_all_sig None m w = (None, None, cleanup_all m w)"
  by (simp add: cleanup_all_sig_def cleanup_all_def on_value_sig_None [of cleanup_sig cleanup]
        cleanup_sig_None split: prod.splits)

lemma finally_block_None:
  "finally_block None pending m w =
     (pending,
      logger INFO ''Load generator shutdown complete''
        (snd (cleanup_all (fst (stop_all m w)) (snd (stop_all m w)))))"
  by (simp add: finally_block_def stop_all_sig_None cleanup_all_sig_None split: prod.splits)

lemma try_block_None:
  "try_block dur None ts m w = poll 0 dur ts (fst (start_all m w)) (snd (start_all m w))"
  by (simp add: try_block_def start_all_sig_None split: prod.splits)

lemma after_try_None:
  "after_try workload_type None raised m w =
     (fst (except_clauses workload_type raised w), None, m,
      snd (except_clauses workload_type raised w))"
proof (cases raised)
  case None
  then show ?thesis by simp
next
  case (Some e)
  then show ?thesis by (cases e) simp_all
qed

lemma main_calls:
  assumes "workload_type \<in> {''cpu'', ''memory'', ''network'', ''storage'', ''mixed''}"
    and "0 \<le> metrics_port" and "metrics_port \<le> 65535"
    and "http_refused env = None" and "before_loop env = None" and "after_loop env = None"
  shows "fst (main workload_type load_intensity dur metrics_port env w) =
           (if signalled (first_tick dur (in_loop env)) then Some (SystemExit 0) else None) \<and>
         teardown_calls (trace (snd (main workload_type load_intensity dur metrics_port env w))) =
           teardown_calls (trace w) @
             (if signalled (first_tick dur (in_loop env))
              then [stop_all_done, stop_all_done, cleanup_all_done]
              else [stop_all_done, cleanup_all_done])"
proof -
  define w0 where "w0 = logger INFO (''Metrics server started on port '' @ str_int metrics_port)
                 (logger INFO (''Workload: '' @ workload_type @ '', Intensity: '' @ load_intensity
                                 @ '', Duration: '' @ str_int dur @ ''s'')
                   (logger INFO ''Starting GKE Load Generator'' w))"
  define a where "a = add_workload workload_type load_intensity LoadGeneratorManager_init w0"
  define s where "s = start_all (fst (snd a)) (snd (snd a))"
  define p where "p = poll 0 dur (in_loop env) (fst s) (snd s)"
  define e where "e = except_clauses workload_type (fst p) (snd (snd p))"
  define st where "st = stop_all (fst (snd p)) (snd e)"
  define c where "c = cleanup_all (fst st) (snd st)"
  let ?t = "first_tick dur (in_loop env)"
  have w0: "teardown_calls (trace w0) = teardown_calls (trace w)"
    by (simp add: w0_def teardown_calls_info)
  from add_workload_known [OF assms(1), of load_intensity LoadGeneratorManager_init w0]
  have a: "fst a = None" "\<not> signal_received (fst (snd a))"
    "teardown_calls (trace (snd (snd a))) = teardown_calls (trace w)"
    by (simp_all add: a_def w0 LoadGeneratorManager_init_def)
  have s: "\<not> signal_received (fst s)" "teardown_calls (trace (snd s)) = teardown_calls (trace w)"
    using a by (simp_all add: s_def start_all_signal start_all_calls)
  from poll_result [OF s(1), of 0 dur "in_loop env" "snd s"]
  have p: "fst p = raised_by ?t"
    "teardown_calls (trace (snd (snd p))) =
       teardown_calls (trace w) @ (if signalled ?t then [stop_all_done] else [])"
    using s(2) by (simp_all add: p_def)
  from except_clauses_result [OF p(1), of workload_type "snd (snd p)"]
  have e: "fst e = (if signalled ?t then Some (SystemExit 0) else None)"
    "teardown_calls (trace (snd e)) =
       teardown_calls (trace w) @ (if signalled ?t then [stop_all_done] else [])"
    using p(2) by (simp_all add: e_def)
  have c: "teardown_calls (trace (snd c)) =
       teardown_calls (trace w) @ (if signalled ?t then [stop_all_done] else [])
         @ [stop_all_done, cleanup_all_done]"
    by (simp add: c_def st_def cleanup_all_calls stop_all_calls e(2))
  have h: "start_http_server metrics_port (http_refused env) = None"
    using assms(2,3,4) by (simp add: start_http_server_def)
  have d: "due (before_loop env) = None" "passed (before_loop env) = None"
    using assms(5) by simp_all
  have m: "main workload_type load_intensity dur metrics_port env w =
             (fst e, logger INFO ''Load generator shutdown complete'' (snd c))"
    using a(1) unfolding main_def Let_def h d assms(6) after_try_None prod.case finally_block_None
      try_block_None c_def st_def e_def p_def s_def a_def w0_def
    by (simp only: case_prod_beta option.case fst_conv snd_conv)
  show ?thesis using e(1) c by (simp add: m teardown_calls_info)
qed

lemma count_list_teardown_calls:
  "count_list (teardown_calls es) stop_all_done = count_list es stop_all_done"
  by (induction es) (simp_all add: teardown_calls_def)

text \<open>
  C1, as the code has it. Take a run of \<^verbatim>\<open>main\<close> with one of the five workload types in
  which the metrics server starts and no signal is delivered outside the sleeps of the
  polling loop. It leaves the \<^verbatim>\<open>try\<close> block in one of two ways. When no signal is
  delivered (the duration elapses, or a \<^verbatim>\<open>KeyboardInterrupt\<close> or another exception is
  raised in the loop and handled), \<^verbatim>\<open>stop_all\<close> and then \<^verbatim>\<open>cleanup_all\<close> are called, once
  each, and \<^verbatim>\<open>main\<close> returns. When a signal is delivered in the loop, the handler calls
  \<^verbatim>\<open>stop_all\<close> and raises \<^verbatim>\<open>SystemExit(0)\<close>; the \<^verbatim>\<open>finally\<close> block then calls
  \<^verbatim>\<open>stop_all\<close> a second time and \<^verbatim>\<open>cleanup_all\<close> once, and the exit stays pending. On
  both ways \<^verbatim>\<open>cleanup_all\<close> is called exactly once, and last. Nothing is said here of a
  signal that is delivered at another moment: before the loop, in an \<^verbatim>\<open>except\<close> clause
  or in the \<^verbatim>\<open>finally\<close> block.
\<close>

theorem main_teardown:
  assumes "workload_type \<in> {''cpu'', ''memory'', ''network'', ''storage'', ''mixed''}"
    and "0 \<le> metrics_port" and "metrics_port \<le> 65535"
    and "http_refused env = None" and "before_loop env = None" and "after_loop env = None"
  shows "fst (main workload_type load_intensity dur metrics_port env w) =
           (if signalled (first_tick dur (in_loop env)) then Some (SystemExit 0) else None) \<and>
         teardown_calls (trace (snd (main workload_type load_intensity dur metrics_port env w))) =
           teardown_calls (trace w) @
             (if signalled (first_tick dur (in_loop env))
              then [stop_all_done, stop_all_done, cleanup_all_done]
              else [stop_all_done, cleanup_all_done])"
  using assms by (rule main_calls)

theorem main_teardown_witness:
  "''cpu'' \<in> {''cpu'', ''memory'', ''network'', ''storage'', ''mixed''} \<and>
   (0::int) \<le> 8000 \<and> (8000::int) \<le> 65535 \<and>
   http_refused (undisturbed []) = None \<and> before_loop (undisturbed []) = None \<and>
   after_loop (undisturbed []) = None \<and>
   fst (main ''cpu'' ''low'' 3 8000 (undisturbed []) boot) = None \<and>
   teardown_calls (trace (snd (main ''cpu'' ''low'' 3 8000 (undisturbed []) boot))) =
     [stop_all_done, cleanup_all_done]"
  using main_teardown [of "''cpu''" 8000 "undisturbed []" "''low''" 3 boot]
  by (simp add: first_tick_def boot_def undisturbed_def)

text \<open>
  C1 as stated fails on the way out through a signal: a second is slept, then signal 15 is
  delivered. \<^verbatim>\<open>stop_all\<close> is called twice, by the handler and by the \<^verbatim>\<open>finally\<close> block.
\<close>

theorem signal_stops_twice:
  "fst (main ''cpu'' ''low'' 3 8000 (undisturbed [Slept, Signal 15]) boot) = Some (SystemExit 0) \<and>
   teardown_calls (trace (snd (main ''cpu'' ''low'' 3 8000 (undisturbed [Slept, Signal 15]) boot))) =
     [stop_all_done, stop_all_done, cleanup_all_done] \<and>
   count_list (trace (snd (main ''cpu'' ''low'' 3 8000 (undisturbed [Slept, Signal 15]) boot))) stop_all_done = 2"
proof -
  let ?run = "main ''cpu'' ''low'' 3 8000 (undisturbed [Slept, Signal 15]) boot"
  have t: "signalled (first_tick 3 (in_loop (undisturbed [Slept, Signal 15])))"
    by (simp add: first_tick_def undisturbed_def)
  have k: "''cpu'' \<in> {''cpu'', ''memory'', ''network'', ''storage'', ''mixed''}"
    by simp
  from main_calls [OF k, of 8000 "undisturbed [Slept, Signal 15]" "''low''" 3 boot] t
  have r: "fst ?run = Some (SystemExit 0)"
    and c: "teardown_calls (trace (snd ?run)) = [stop_all_done, stop_all_done, cleanup_all_done]"
    by (simp_all add: boot_def undisturbed_def)
  have "count_list (trace (snd ?run)) stop_all_done =
        count_list [stop_all_done, stop_all_done, cleanup_all_done] stop_all_done"
    using count_list_teardown_calls [of "trace (snd ?run)"] by (simp only: c)
  then have "count_list (trace (snd ?run)) stop_all_done = 2"
    by (simp add: stop_all_done_def cleanup_all_done_def)
  with r c show ?thesis by simp
qed

text \<open>
  The handler stays installed while the \<^verbatim>\<open>finally\<close> block runs. A signal that arrives
  while \<^verbatim>\<open>stop_all\<close> of that block waits in a join makes the handler stop all workloads
  and raise \<^verbatim>\<open>SystemExit\<close> out of the block: \<^verbatim>\<open>cleanup_all\<close> is not called, and the file
  that the storage generator has recorded stays on disk.
\<close>

lemma signal_in_finally_skips_cleanup:
  "fst finally_interrupted = Some (SystemExit 0) \<and>
   teardown_calls (trace (snd finally_interrupted)) = [stop_all_done] \<and>
   filename 100 \<in> files (snd finally_interrupted)"
  by code_simp

text \<open>
  A port that no socket can be bound to: \<^verbatim>\<open>main\<close> raises before the manager exists, after
  its first two log records.
\<close>

lemma metrics_server_refused:
  "main ''cpu'' ''low'' 3 70000 (undisturbed []) boot =
     (Some (OverflowError ''bind(): port must be 0-65535.''),
      logger INFO ''Workload: cpu, Intensity: low, Duration: 3s''
        (logger INFO ''Starting GKE Load Generator'' boot))"
proof -
  have "str_int 3 = ''3''" by code_simp
  then show ?thesis by (simp add: main_def start_http_server_def Let_def)
qed

end
